theory Spec2Isabelle
  imports Main "HOL-Library.Char_ord" "HOL-Library.List_Lexorder" "HOL-Library.Multiset"
begin

section \<open>Python values used by ccode.py\<close>

text \<open>
  A Python \<open>str\<close> is a \<^typ>\<open>string\<close>; a character stands for a code point below 256.
  Strings are compared as Python compares them: lexicographically by code point, a
  proper prefix being smaller (the order of \<open>List_Lexorder\<close> over \<open>Char_ord\<close>).
  Python integers are unbounded: \<^typ>\<open>int\<close>.
\<close>

text \<open>The exceptions that the modelled code can raise or let through.\<close>

datatype error =
    RuntimeError string
  | AttributeError
  | KeyError string
  | IndexError
  | ValueError
  | OverflowError
  | RecursionError
  | HTTPException

text \<open>
  What \<open>json.loads\<close> returns. A \<open>JDict\<close> is the parsed dictionary in insertion
  order, its keys distinct; \<open>dict.get\<close> is \<^const>\<open>map_of\<close>. The payload of a float is
  never inspected by the program; it is kept as mantissa and exponent.
\<close>

datatype json =
    JNull
  | JBool bool
  | JInt int
  | JFloat int int
  | JStr string
  | JList "json list"
  | JDict "(string \<times> json) list"

text \<open>Python slices \<open>xs[k:]\<close> and \<open>xs[:k]\<close>; a negative bound counts from the end.\<close>

definition slice_from :: "int \<Rightarrow> 'a list \<Rightarrow> 'a list" where
  "slice_from k xs =
     (if k < 0 then drop (nat (int (length xs) + k)) xs else drop (nat k) xs)"

definition slice_to :: "int \<Rightarrow> 'a list \<Rightarrow> 'a list" where
  "slice_to k xs =
     (if k < 0 then take (nat (int (length xs) + k)) xs else take (nat k) xs)"

text \<open>\<open>d[k] = v\<close> on an insertion-ordered dictionary: a known key keeps its place.\<close>

fun dict_set :: "('k \<times> 'v) list \<Rightarrow> 'k \<Rightarrow> 'v \<Rightarrow> ('k \<times> 'v) list" where
  "dict_set [] k v = [(k, v)]"
| "dict_set ((k', v') # rest) k v =
     (if k' = k then (k, v) # rest else (k', v') # dict_set rest k v)"

section \<open>The catalog and the owner index\<close>

text \<open>
  A catalog entry is a \<open>dict[str, str]\<close>; \<open>fetch_models\<close> builds each one with the keys
  \<open>id\<close> and \<open>owned_by\<close>. \<open>item.get(k)\<close> is \<open>item k\<close>, and a missing key gives \<open>None\<close>.
\<close>

type_synonym item = "string \<rightharpoonup> string"

definition mk_item :: "string \<Rightarrow> string \<Rightarrow> item" where
  "mk_item model_id owner = [''id'' \<mapsto> model_id, ''owned_by'' \<mapsto> owner]"

text \<open>\<open>by_owner.setdefault(owned_by, []).append(model_id)\<close>\<close>

fun setdefault_append ::
  "(string \<times> string list) list \<Rightarrow> string \<Rightarrow> string \<Rightarrow> (string \<times> string list) list" where
  "setdefault_append [] owner model_id = [(owner, [model_id])]"
| "setdefault_append ((k, ids) # rest) owner model_id =
     (if k = owner then (k, ids @ [model_id]) # rest
      else (k, ids) # setdefault_append rest owner model_id)"

text \<open>The first loop of \<open>build_models_by_owner\<close>, started from the dictionary built so far.\<close>

fun collect_by_owner ::
  "(string \<times> string list) list \<Rightarrow> item list \<Rightarrow> (string \<times> string list) list" where
  "collect_by_owner by_owner [] = by_owner"
| "collect_by_owner by_owner (item # rest) =
     (case (item ''owned_by'', item ''id'') of
        (Some owner, Some model_id) \<Rightarrow>
          collect_by_owner (setdefault_append by_owner owner model_id) rest
      | _ \<Rightarrow> collect_by_owner by_owner rest)"

definition build_models_by_owner :: "item list option \<Rightarrow> (string \<times> string list) list" where
  "build_models_by_owner models_data =
     map (\<lambda>(owner, ids). (owner, sort ids))
       (collect_by_owner [] (case models_data of None \<Rightarrow> [] | Some ms \<Rightarrow> ms))"

definition owner_options :: "(string \<times> string list) list \<Rightarrow> string list" where
  "owner_options models_by_owner = sort (map fst models_by_owner)"

definition model_options :: "(string \<times> string list) list \<Rightarrow> string \<Rightarrow> string list" where
  "model_options models_by_owner owner =
     (case map_of models_by_owner owner of None \<Rightarrow> [] | Some ids \<Rightarrow> ids)"

section \<open>Strings\<close>

text \<open>
  \<open>str.isspace\<close> on the code points below 256, \<open>str.strip()\<close>, \<open>str.rstrip('/')\<close>,
  \<open>str(n)\<close> for an integer and \<open>str.upper\<close> on ASCII letters (the slot names it is
  applied to are ASCII).
\<close>

definition isspace :: "char \<Rightarrow> bool" where
  "isspace c = ((of_char c :: nat) \<in> {9, 10, 11, 12, 13, 28, 29, 30, 31, 32, 133, 160})"

definition strip :: "string \<Rightarrow> string" where
  "strip s = rev (dropWhile isspace (rev (dropWhile isspace s)))"

definition rstrip_slash :: "string \<Rightarrow> string" where
  "rstrip_slash s = rev (dropWhile (\<lambda>c. c = CHR ''/'') (rev s))"

definition digit_char :: "nat \<Rightarrow> char" where
  "digit_char n = ''0123456789'' ! n"

fun str_nat :: "nat \<Rightarrow> string" where
  "str_nat n = (if n < 10 then [digit_char n] else str_nat (n div 10) @ [digit_char (n mod 10)])"

declare str_nat.simps [simp del]

definition str_int :: "int \<Rightarrow> string" where
  "str_int i = (if i < 0 then CHR ''-'' # str_nat (nat (- i)) else str_nat (nat i))"

definition upper_char :: "char \<Rightarrow> char" where
  "upper_char c =
     (case map_of (zip ''abcdefghijklmnopqrstuvwxyz'' ''ABCDEFGHIJKLMNOPQRSTUVWXYZ'') c of
        Some u \<Rightarrow> u
      | None \<Rightarrow> c)"

definition upper :: "string \<Rightarrow> string" where
  "upper s = map upper_char s"

text \<open>Truth value of an optional string: \<open>None\<close> and \<open>""\<close> are false.\<close>

definition truthy :: "string option \<Rightarrow> bool" where
  "truthy v = (case v of None \<Rightarrow> False | Some s \<Rightarrow> s \<noteq> [])"

section \<open>Configuration\<close>

definition MODEL_KEYS :: "string list" where
  "MODEL_KEYS = [''opus'', ''sonnet'', ''haiku'']"

definition DEFAULT_BASE_URL :: string where
  "DEFAULT_BASE_URL = ''http://127.0.0.1:8317''"

definition DEFAULT_TOGGLES :: "(string \<times> int) list" where
  "DEFAULT_TOGGLES =
     [(''CLAUDE_CODE_ENABLE_TELEMETRY'', 0),
      (''DISABLE_COST_WARNINGS'', 1),
      (''CLAUDE_CODE_DISABLE_NONESSENTIAL_TRAFFIC'', 1)]"

text \<open>
  A slot is the dictionary \<open>{"owned_by": ..., "id": ...}\<close>; the field \<open>id\<close> is called
  \<open>ident\<close> here. The configuration's \<open>models\<close> and \<open>toggles\<close> are dictionaries in
  insertion order.
\<close>

record slot =
  owned_by :: "string option"
  ident :: "string option"

record config =
  base_url :: string
  api_key :: string
  models :: "(string \<times> slot) list"
  toggles :: "(string \<times> int) list"

definition empty_slot :: slot where
  "empty_slot = \<lparr>owned_by = None, ident = None\<rparr>"

definition default_config :: config where
  "default_config =
     \<lparr>base_url = DEFAULT_BASE_URL, api_key = [],
      models = [(''opus'', empty_slot), (''sonnet'', empty_slot), (''haiku'', empty_slot)],
      toggles = DEFAULT_TOGGLES\<rparr>"

text \<open>
  \<open>config["models"].get(key, {})\<close>: reading \<open>owned_by\<close> or \<open>id\<close> from the empty
  dictionary gives \<open>None\<close>, as from \<^const>\<open>empty_slot\<close>.
\<close>

definition get_entry :: "config \<Rightarrow> string \<Rightarrow> slot" where
  "get_entry cfg key = (case map_of (models cfg) key of None \<Rightarrow> empty_slot | Some entry \<Rightarrow> entry)"

definition set_entry :: "config \<Rightarrow> string \<Rightarrow> slot \<Rightarrow> config" where
  "set_entry cfg key entry = cfg\<lparr>models := dict_set (models cfg) key entry\<rparr>"

definition json_str :: "json option \<Rightarrow> string option" where
  "json_str v = (case v of Some (JStr s) \<Rightarrow> Some s | _ \<Rightarrow> None)"

text \<open>The loop over \<open>MODEL_KEYS\<close> in \<open>load_config\<close>, one step.\<close>

definition load_model :: "(string \<times> json) list \<Rightarrow> string \<Rightarrow> config \<Rightarrow> config" where
  "load_model models_json key cfg =
     (case map_of models_json key of
        Some (JDict entry) \<Rightarrow>
          set_entry cfg key
            \<lparr>owned_by = json_str (map_of entry ''owned_by''),
             ident = json_str (map_of entry ''id'')\<rparr>
      | _ \<Rightarrow> cfg)"

text \<open>The loop over \<open>DEFAULT_TOGGLES\<close> in \<open>load_config\<close>, one step.\<close>

definition load_toggle :: "(string \<times> json) list \<Rightarrow> string \<Rightarrow> config \<Rightarrow> config" where
  "load_toggle toggles_json key cfg =
     (case map_of toggles_json key of
        Some (JBool b) \<Rightarrow> cfg\<lparr>toggles := dict_set (toggles cfg) key (if b then 1 else 0)\<rparr>
      | Some (JInt v) \<Rightarrow>
          (if v = 0 \<or> v = 1 then cfg\<lparr>toggles := dict_set (toggles cfg) key v\<rparr> else cfg)
      | _ \<Rightarrow> cfg)"

text \<open>
  \<open>load_config\<close>. Its argument is the parsed content of the configuration file:
  \<open>None\<close> when the file is missing, unreadable or not JSON.
\<close>

definition load_config :: "json option \<Rightarrow> config" where
  "load_config raw =
     (case raw of
        Some (JDict data) \<Rightarrow>
          (let cfg = default_config;
               cfg = (case map_of data ''base_url'' of
                        Some (JStr s) \<Rightarrow> cfg\<lparr>base_url := s\<rparr> | _ \<Rightarrow> cfg);
               cfg = (case map_of data ''api_key'' of
                        Some (JStr s) \<Rightarrow> cfg\<lparr>api_key := s\<rparr> | _ \<Rightarrow> cfg);
               cfg = (case map_of data ''models'' of
                        Some (JDict ms) \<Rightarrow> fold (load_model ms) MODEL_KEYS cfg | _ \<Rightarrow> cfg);
               cfg = (case map_of data ''toggles'' of
                        Some (JDict ts) \<Rightarrow> fold (load_toggle ts) (map fst DEFAULT_TOGGLES) cfg
                      | _ \<Rightarrow> cfg)
           in cfg)
      | _ \<Rightarrow> default_config)"

text \<open>
  \<open>save_config\<close> writes the configuration file. The disk is modelled as the list of
  configurations written so far, one per call.
\<close>

definition save_config :: "config \<Rightarrow> config list \<Rightarrow> config list" where
  "save_config cfg disk = disk @ [cfg]"

definition mask_secret :: "string \<Rightarrow> string" where
  "mask_secret v =
     (if v = [] then ''<unset>''
      else if length v \<le> 8 then replicate (length v) CHR ''*''
      else slice_to 4 v @ ''...'' @ slice_from (- 4) v)"

text \<open>The toggle branch of \<open>handle_config_key\<close> (enter or space on a toggle field).\<close>

definition flip_toggle :: "string \<Rightarrow> config \<Rightarrow> config list \<Rightarrow> config \<times> config list" where
  "flip_toggle field cfg disk =
     (let current = (case map_of (toggles cfg) field of None \<Rightarrow> 0 | Some v \<Rightarrow> v);
          cfg = cfg\<lparr>toggles := dict_set (toggles cfg) field (if current \<noteq> 0 then 0 else 1)\<rparr>
      in (cfg, save_config cfg disk))"

definition update_model_owner ::
  "config \<Rightarrow> string \<Rightarrow> string option \<Rightarrow> config list \<Rightarrow> config \<times> config list" where
  "update_model_owner cfg key owner disk =
     (let cfg = set_entry cfg key \<lparr>owned_by = (if truthy owner then owner else None), ident = None\<rparr>
      in (cfg, save_config cfg disk))"

definition update_model_id ::
  "config \<Rightarrow> string \<Rightarrow> string option \<Rightarrow> string option \<Rightarrow> config list \<Rightarrow> config \<times> config list" where
  "update_model_id cfg key owner model_id disk =
     (let cfg =
        (if truthy owner \<and> truthy model_id
         then set_entry cfg key \<lparr>owned_by = owner, ident = model_id\<rparr>
         else set_entry cfg key \<lparr>owned_by = (if truthy owner then owner else None), ident = None\<rparr>)
      in (cfg, save_config cfg disk))"

section \<open>Environment of the launched program\<close>

definition model_var :: "string \<Rightarrow> string" where
  "model_var key = ''ANTHROPIC_DEFAULT_'' @ upper key @ ''_MODEL''"

definition env_model :: "config \<Rightarrow> string \<Rightarrow> (string \<rightharpoonup> string) \<Rightarrow> (string \<rightharpoonup> string)" where
  "env_model cfg key env =
     (case ident (get_entry cfg key) of
        Some model_id \<Rightarrow> (if model_id \<noteq> [] then env(model_var key \<mapsto> model_id) else env)
      | None \<Rightarrow> env)"

definition env_toggle :: "string \<times> int \<Rightarrow> (string \<rightharpoonup> string) \<Rightarrow> (string \<rightharpoonup> string)" where
  "env_toggle kv env = env(fst kv \<mapsto> str_int (snd kv))"

text \<open>\<open>build_env\<close>; \<open>environ\<close> is \<open>os.environ\<close>.\<close>

definition build_env :: "(string \<rightharpoonup> string) \<Rightarrow> config \<Rightarrow> bool \<Rightarrow> (string \<rightharpoonup> string)" where
  "build_env environ cfg masked =
     (let env = environ;
          env = env(''ANTHROPIC_BASE_URL'' \<mapsto> base_url cfg);
          env = env(''ANTHROPIC_AUTH_TOKEN'' \<mapsto>
                      (if masked then mask_secret (api_key cfg) else api_key cfg));
          env = fold (env_model cfg) MODEL_KEYS env;
          env = fold env_toggle (toggles cfg) env
      in env)"

text \<open>The loop of \<open>validate_launch_requirements\<close>: the first slot that is not resolved.\<close>

fun slots_required :: "config \<Rightarrow> string list \<Rightarrow> string option" where
  "slots_required cfg [] = None"
| "slots_required cfg (key # rest) =
     (let entry = get_entry cfg key in
      if \<not> truthy (owned_by entry) \<or> \<not> truthy (ident entry)
      then Some ''OPUS, SONNET, and HAIKU selections are required.''
      else slots_required cfg rest)"

definition validate_launch_requirements :: "config \<Rightarrow> string option" where
  "validate_launch_requirements cfg =
     (let base_url' = strip (base_url cfg); api_key' = strip (api_key cfg) in
      if base_url' = [] \<or> api_key' = [] then Some ''Base URL and API key are required.''
      else slots_required cfg MODEL_KEYS)"

section \<open>Fetching and validating the catalog\<close>

text \<open>
  What building and sending the request does. Inside the \<open>try\<close>, \<open>urlopen\<close> and
  \<open>response.read\<close> raise \<open>HTTPError\<close> (with its code and the text read from \<open>exc.fp\<close>,
  \<open>None\<close> when there is no \<open>fp\<close> or reading it raised), raise \<open>URLError\<close> or \<open>OSError\<close>
  (with its \<open>str\<close>), or give a response (status and body, decoded as UTF-8 with
  replacement). Two outcomes are exceptions that no \<open>except\<close> clause of \<open>fetch_models\<close>
  catches: the \<open>ValueError\<close> of \<open>urllib.request.Request\<close>, called before the \<open>try\<close>, for
  a URL without a scheme; and an \<open>http.client.HTTPException\<close> raised inside the \<open>try\<close>
  (\<open>IncompleteRead\<close>, \<open>BadStatusLine\<close>), which is neither an \<open>HTTPError\<close>, a \<open>URLError\<close>
  nor an \<open>OSError\<close>.
\<close>

datatype http_outcome =
    HTTPError int "string option"
  | URLError string
  | Response int string
  | Request_ValueError
  | HTTP_exception

text \<open>
  What \<open>json.loads\<close> does with a text: it gives the value, raises \<open>ValueError\<close> on a text
  that is not JSON, or raises \<open>RecursionError\<close> on a text nested too deep.
\<close>

datatype loads_outcome =
    Loaded json
  | Loads_ValueError
  | Loads_RecursionError

definition error_body :: "string \<Rightarrow> string" where
  "error_body body =
     (let body = (if length body > 200 then slice_to 200 body @ ''...'' else body)
      in if body = [] then ''No response body'' else body)"

text \<open>The loop of \<open>fetch_models\<close> over the \<open>data\<close> array.\<close>

fun collect_models :: "json list \<Rightarrow> item list" where
  "collect_models [] = []"
| "collect_models (JDict entry # rest) =
     (case (map_of entry ''id'', map_of entry ''owned_by'') of
        (Some (JStr model_id), Some (JStr owner)) \<Rightarrow>
          mk_item model_id owner # collect_models rest
      | _ \<Rightarrow> collect_models rest)"
| "collect_models (_ # rest) = collect_models rest"

text \<open>
  \<open>fetch_models\<close>, given the network (\<open>urlopen\<close>, from the URL and the Authorization
  header) and \<open>json.loads\<close>, whose \<open>ValueError\<close> is caught and whose \<open>RecursionError\<close>
  is not. \<open>payload.get\<close> on a payload that is not a dictionary raises \<open>AttributeError\<close>,
  which nothing catches.
\<close>

definition fetch_models ::
  "(string \<Rightarrow> string \<Rightarrow> http_outcome) \<Rightarrow> (string \<Rightarrow> loads_outcome) \<Rightarrow>
   string \<Rightarrow> string \<Rightarrow> error + item list" where
  "fetch_models urlopen json_loads base_url' api_key' =
     (let url = rstrip_slash base_url' @ ''/v1/models'';
          authorization = ''Bearer '' @ api_key'
      in case urlopen url authorization of
           HTTPError code fp \<Rightarrow>
             (let body = (case fp of None \<Rightarrow> [] | Some text \<Rightarrow> strip text)
              in Inl (RuntimeError (''HTTP '' @ str_int code @ '': '' @ error_body body)))
         | URLError exc \<Rightarrow> Inl (RuntimeError (''Request failed: '' @ exc))
         | Request_ValueError \<Rightarrow> Inl ValueError
         | HTTP_exception \<Rightarrow> Inl HTTPException
         | Response status body_text \<Rightarrow>
             (if status \<noteq> 200
              then Inl (RuntimeError
                     (''HTTP '' @ str_int status @ '': '' @ error_body (strip body_text)))
              else case json_loads body_text of
                     Loads_ValueError \<Rightarrow> Inl (RuntimeError ''Invalid JSON response'')
                   | Loads_RecursionError \<Rightarrow> Inl RecursionError
                   | Loaded (JDict payload) \<Rightarrow>
                       (case map_of payload ''data'' of
                          Some (JList data) \<Rightarrow> Inr (collect_models data)
                        | _ \<Rightarrow> Inl (RuntimeError ''Response JSON missing data array''))
                   | Loaded _ \<Rightarrow> Inl AttributeError))"

text \<open>
  The set \<open>valid\<close> of \<open>validate_models\<close>; \<open>item["owned_by"]\<close> and \<open>item["id"]\<close> raise
  \<open>KeyError\<close> on a missing key.
\<close>

fun valid_pairs :: "item list \<Rightarrow> error + (string \<times> string) list" where
  "valid_pairs [] = Inr []"
| "valid_pairs (item # rest) =
     (case item ''owned_by'' of
        None \<Rightarrow> Inl (KeyError ''owned_by'')
      | Some owner \<Rightarrow>
          (case item ''id'' of
             None \<Rightarrow> Inl (KeyError ''id'')
           | Some model_id \<Rightarrow>
               (case valid_pairs rest of
                  Inl e \<Rightarrow> Inl e
                | Inr valid \<Rightarrow> Inr ((owner, model_id) # valid))))"

definition in_valid :: "(string \<times> string) list \<Rightarrow> string option \<Rightarrow> string option \<Rightarrow> bool" where
  "in_valid valid owner model_id =
     (case (owner, model_id) of
        (Some s, Some t) \<Rightarrow> (s, t) \<in> set valid
      | _ \<Rightarrow> False)"

text \<open>The loop body of \<open>validate_models\<close>, on the configuration and the flag \<open>changed\<close>.\<close>

definition validate_slot ::
  "(string \<times> string) list \<Rightarrow> string \<Rightarrow> config \<times> bool \<Rightarrow> config \<times> bool" where
  "validate_slot valid key st =
     (let cfg = fst st; entry = get_entry cfg key in
      if \<not> truthy (owned_by entry) \<or> \<not> truthy (ident entry)
           \<or> \<not> in_valid valid (owned_by entry) (ident entry)
      then (if owned_by entry \<noteq> None \<or> ident entry \<noteq> None
            then (set_entry cfg key empty_slot, True)
            else st)
      else st)"

definition validate_models :: "config \<Rightarrow> item list \<Rightarrow> error + config \<times> bool" where
  "validate_models cfg ms =
     (case valid_pairs ms of
        Inl e \<Rightarrow> Inl e
      | Inr valid \<Rightarrow> Inr (fold (validate_slot valid) MODEL_KEYS (cfg, False)))"

section \<open>The application state\<close>

text \<open>
  The state of \<open>CursesApp\<close>, and \<open>disk\<close>: the configurations written by
  \<open>save_config\<close>, in order. The fields left out (\<open>args\<close>, the focus and cursors of the
  configuration screen, \<open>logo_palette\<close>, \<open>render_style\<close>) are not touched by the methods
  modelled here.
\<close>

record app =
  config :: config
  disk :: "config list"
  models_data :: "item list option"
  models_by_owner :: "(string \<times> string list) list"
  status_message :: string
  active_screen :: string
  main_focus_row :: int
  main_focus_field :: int
  should_exit :: bool
  frame :: int
  use_color :: bool
  color_pairs :: "int list"
  logo_lines :: "string list"

definition update_models_by_owner :: "app \<Rightarrow> app" where
  "update_models_by_owner self = self\<lparr>models_by_owner := build_models_by_owner (models_data self)\<rparr>"

text \<open>
  \<open>fetch_and_store_models\<close> returns the error text or \<open>None\<close>, with the state. Only
  \<open>RuntimeError\<close> is caught; any other exception goes through.
\<close>

definition fetch_and_store_models ::
  "(string \<Rightarrow> string \<Rightarrow> http_outcome) \<Rightarrow> (string \<Rightarrow> loads_outcome) \<Rightarrow>
   app \<Rightarrow> string \<Rightarrow> string \<Rightarrow> bool \<Rightarrow> error + string option \<times> app" where
  "fetch_and_store_models urlopen json_loads self base_url' api_key' save =
     (case fetch_models urlopen json_loads base_url' api_key' of
        Inl (RuntimeError msg) \<Rightarrow> Inr (Some msg, self)
      | Inl e \<Rightarrow> Inl e
      | Inr ms \<Rightarrow>
          (let self = self\<lparr>models_data := Some ms\<rparr>;
               cfg = (config self)\<lparr>base_url := base_url', api_key := api_key'\<rparr>
           in case validate_models cfg ms of
                Inl e \<Rightarrow> Inl e
              | Inr (cfg, changed) \<Rightarrow>
                  (let self = self\<lparr>config := cfg,
                                   disk := (if save \<or> changed then save_config cfg (disk self)
                                            else disk self)\<rparr>
                   in Inr (None, update_models_by_owner self))))"

definition refresh_models ::
  "(string \<Rightarrow> string \<Rightarrow> http_outcome) \<Rightarrow> (string \<Rightarrow> loads_outcome) \<Rightarrow> app \<Rightarrow> error + app" where
  "refresh_models urlopen json_loads self =
     (let self = self\<lparr>status_message := []\<rparr>;
          base_url' = strip (base_url (config self));
          api_key' = strip (api_key (config self))
      in if base_url' = [] \<or> api_key' = []
         then Inr (self\<lparr>status_message :=
                     ''Base URL and API key are required. Open config with c.''\<rparr>)
         else case fetch_and_store_models urlopen json_loads self base_url' api_key' True of
                Inl e \<Rightarrow> Inl e
              | Inr (err, self) \<Rightarrow>
                  (if truthy err
                   then Inr (self\<lparr>status_message := (case err of Some msg \<Rightarrow> msg | None \<Rightarrow> [])\<rparr>)
                   else Inr (self\<lparr>status_message := ''Models refreshed.''\<rparr>)))"

section \<open>Cycling a selection\<close>

text \<open>\<open>xs.index(v)\<close> for a \<open>v\<close> that occurs in \<open>xs\<close>: its first position.\<close>

fun index_of :: "'a list \<Rightarrow> 'a \<Rightarrow> nat" where
  "index_of [] v = 0"
| "index_of (x # xs) v = (if x = v then 0 else Suc (index_of xs v))"

text \<open>\<open>xs[i]\<close> for a Python integer \<open>i\<close>: a negative index counts from the end.\<close>

definition getitem :: "'a list \<Rightarrow> int \<Rightarrow> error + 'a" where
  "getitem xs i =
     (if 0 \<le> i \<and> i < int (length xs) then Inr (xs ! nat i)
      else if i < 0 \<and> - int (length xs) \<le> i then Inr (xs ! nat (int (length xs) + i))
      else Inl IndexError)"

text \<open>
  The selection step that \<open>cycle_main_option\<close> performs, in the same way, on the owners
  and on the ids of an owner: \<open>None\<close> is the early return on an empty list, otherwise the
  result is the element chosen.
\<close>

definition advance :: "string list \<Rightarrow> string option \<Rightarrow> int \<Rightarrow> string option" where
  "advance options current direction =
     (if options = [] then None
      else let absent = (if direction > 0 then - 1 else 0);
               index = (case current of
                          None \<Rightarrow> absent
                        | Some c \<Rightarrow> if c \<in> set options then int (index_of options c) else absent)
           in Some (options ! nat ((index + direction) mod int (length options))))"

definition cycle_main_option :: "int \<Rightarrow> app \<Rightarrow> error + app" where
  "cycle_main_option direction self =
     (case getitem MODEL_KEYS (main_focus_row self) of
        Inl e \<Rightarrow> Inl e
      | Inr key \<Rightarrow>
          (if main_focus_field self = 0
           then (case advance (owner_options (models_by_owner self))
                        (owned_by (get_entry (config self) key)) direction of
                   None \<Rightarrow> Inr self
                 | Some new_owner \<Rightarrow>
                     (let (cfg, d) = update_model_owner (config self) key (Some new_owner) (disk self)
                      in Inr (self\<lparr>config := cfg, disk := d\<rparr>)))
           else (let owner = owned_by (get_entry (config self) key) in
                 if \<not> truthy owner then Inr self
                 else case advance
                        (model_options (models_by_owner self) (case owner of Some s \<Rightarrow> s | None \<Rightarrow> []))
                        (ident (get_entry (config self) key)) direction of
                        None \<Rightarrow> Inr self
                      | Some new_id \<Rightarrow>
                          (let (cfg, d) = update_model_id (config self) key owner (Some new_id) (disk self)
                           in Inr (self\<lparr>config := cfg, disk := d\<rparr>)))))"

section \<open>Painting\<close>

text \<open>
  The window is the curses library's: \<open>getmaxyx\<close> gives its height and width. A call
  of \<open>addstr\<close> writes, or raises \<open>curses.error\<close> (the window is then as the outcome gives
  it), or raises another exception: \<open>ValueError\<close> for a text with an embedded null
  character, \<open>OverflowError\<close> for an attribute that does not fit a C \<open>long\<close>.
\<close>

datatype 'w addstr_outcome =
    Written 'w
  | Curses_error 'w
  | Addstr_raises error

definition addstr_safe ::
  "('w \<Rightarrow> int \<times> int) \<Rightarrow> ('w \<Rightarrow> int \<Rightarrow> int \<Rightarrow> string \<Rightarrow> int \<Rightarrow> 'w addstr_outcome) \<Rightarrow>
   'w \<Rightarrow> int \<Rightarrow> int \<Rightarrow> string \<Rightarrow> int \<Rightarrow> error + 'w" where
  "addstr_safe getmaxyx addstr stdscr y x text' attr =
     (let (height, width) = getmaxyx stdscr in
      if y < 0 \<or> y \<ge> height then Inr stdscr
      else let (text', x) = (if x < 0 then (slice_from (- x) text', 0) else (text', x)) in
           if x \<ge> width then Inr stdscr
           else let available = width - x in
                if available \<le> 0 then Inr stdscr
                else (case addstr stdscr y x (slice_to available text') attr of
                        Written w \<Rightarrow> Inr w
                      | Curses_error w \<Rightarrow> Inr w
                      | Addstr_raises e \<Rightarrow> Inl e))"

text \<open>
  The attribute that \<open>render_style_pulse\<close> gives to the glyph at \<open>row\<close>, \<open>col\<close>;
  \<open>color_pair\<close> and \<open>A_BOLD\<close> are the curses library's.
\<close>

definition pulse_attr :: "(int \<Rightarrow> int) \<Rightarrow> int \<Rightarrow> app \<Rightarrow> nat \<Rightarrow> nat \<Rightarrow> int" where
  "pulse_attr color_pair A_BOLD self row col =
     (if use_color self \<and> color_pairs self \<noteq> []
      then let idx = (int col + int row + frame self div 3) mod int (length (color_pairs self));
               attr = color_pair (color_pairs self ! nat idx)
           in if (frame self + int col + int row) mod 20 < 10 then or attr A_BOLD else attr
      else 0)"

text \<open>
  The calls of \<open>addstr_safe\<close> that \<open>render_style_pulse\<close> makes, in order: the inner
  loop over the characters of a line, and the outer loop over the lines.
\<close>

definition pulse_row ::
  "(int \<Rightarrow> int) \<Rightarrow> int \<Rightarrow> app \<Rightarrow> int \<Rightarrow> int \<Rightarrow> nat \<Rightarrow> string \<Rightarrow>
   (int \<times> int \<times> string \<times> int) list" where
  "pulse_row color_pair A_BOLD self start_y base_x row line =
     concat (map (\<lambda>(col, ch).
        if ch = CHR '' '' then []
        else [(start_y + int row, base_x + int col, [ch],
               pulse_attr color_pair A_BOLD self row col)])
      (enumerate 0 line))"

definition pulse_calls ::
  "(int \<Rightarrow> int) \<Rightarrow> int \<Rightarrow> app \<Rightarrow> int \<Rightarrow> int \<Rightarrow> (int \<times> int \<times> string \<times> int) list" where
  "pulse_calls color_pair A_BOLD self start_y base_x =
     concat (map (\<lambda>(row, line). pulse_row color_pair A_BOLD self start_y base_x row line)
      (enumerate 0 (logo_lines self)))"

fun paint_all ::
  "('w \<Rightarrow> int \<times> int) \<Rightarrow> ('w \<Rightarrow> int \<Rightarrow> int \<Rightarrow> string \<Rightarrow> int \<Rightarrow> 'w addstr_outcome) \<Rightarrow>
   (int \<times> int \<times> string \<times> int) list \<Rightarrow> 'w \<Rightarrow> error + 'w" where
  "paint_all getmaxyx addstr [] stdscr = Inr stdscr"
| "paint_all getmaxyx addstr ((y, x, text', attr) # rest) stdscr =
     (case addstr_safe getmaxyx addstr stdscr y x text' attr of
        Inl e \<Rightarrow> Inl e
      | Inr w \<Rightarrow> paint_all getmaxyx addstr rest w)"

text \<open>\<open>render_style_pulse\<close>; \<open>max\<close> of no line lengths raises \<open>ValueError\<close>.\<close>

definition render_style_pulse ::
  "('w \<Rightarrow> int \<times> int) \<Rightarrow> ('w \<Rightarrow> int \<Rightarrow> int \<Rightarrow> string \<Rightarrow> int \<Rightarrow> 'w addstr_outcome) \<Rightarrow>
   (int \<Rightarrow> int) \<Rightarrow> int \<Rightarrow> app \<Rightarrow> 'w \<Rightarrow> int \<Rightarrow> error + 'w" where
  "render_style_pulse getmaxyx addstr color_pair A_BOLD self stdscr start_y =
     (let lines = logo_lines self; (height, width) = getmaxyx stdscr in
      if lines = [] then Inl ValueError
      else let max_len = Max (set (map (\<lambda>line. int (length line)) lines));
               base_x = max 0 ((width - max_len) div 2)
           in paint_all getmaxyx addstr (pulse_calls color_pair A_BOLD self start_y base_x) stdscr)"

section \<open>Notions used to state the properties\<close>

text \<open>The catalog held by the application: nothing before the first successful fetch.\<close>

definition catalog_of :: "item list option \<Rightarrow> item list" where
  "catalog_of catalog = (case catalog of None \<Rightarrow> [] | Some ms \<Rightarrow> ms)"

text \<open>
  The ids that a catalog lists under an owner, in catalog order, each as often as the
  catalog lists it.
\<close>

fun catalog_ids :: "string \<Rightarrow> item list \<Rightarrow> string list" where
  "catalog_ids owner [] = []"
| "catalog_ids owner (item # rest) =
     (case (item ''owned_by'', item ''id'') of
        (Some s, Some model_id) \<Rightarrow>
          (if s = owner then model_id # catalog_ids owner rest else catalog_ids owner rest)
      | _ \<Rightarrow> catalog_ids owner rest)"

text \<open>
  A slot's pair is present in a catalog: the slot has an owner and an id, and some entry
  of the catalog has both.
\<close>

definition in_catalog :: "item list \<Rightarrow> slot \<Rightarrow> bool" where
  "in_catalog ms entry =
     (case (owned_by entry, ident entry) of
        (Some owner, Some model_id) \<Rightarrow>
          (\<exists>item \<in> set ms. item ''owned_by'' = Some owner \<and> item ''id'' = Some model_id)
      | _ \<Rightarrow> False)"

text \<open>What one round of \<open>validate_models\<close> leaves in a slot.\<close>

definition validated :: "(string \<times> string) list \<Rightarrow> slot \<Rightarrow> slot" where
  "validated valid entry =
     (if truthy (owned_by entry) \<and> truthy (ident entry)
         \<and> in_valid valid (owned_by entry) (ident entry)
      then entry else empty_slot)"

text \<open>
  The starting index of a selection step as the specification gives it: the position of
  the current value when the list has it, otherwise the last position when going
  forward and the first when going backward.
\<close>

definition absent :: "string option \<Rightarrow> string list \<Rightarrow> bool" where
  "absent current options = (case current of None \<Rightarrow> True | Some c \<Rightarrow> c \<notin> set options)"

definition advance_start :: "string list \<Rightarrow> string option \<Rightarrow> int \<Rightarrow> int" where
  "advance_start options current direction =
     (case current of
        Some c \<Rightarrow> if c \<in> set options then int (index_of options c)
                  else if direction = 1 then int (length options) - 1 else 0
      | None \<Rightarrow> if direction = 1 then int (length options) - 1 else 0)"

text \<open>
  A sequence of toggle flips on the configuration screen. The fields of that screen that
  are toggles are the keys of \<open>TOGGLE_LABELS\<close>, the same three as those of
  \<open>DEFAULT_TOGGLES\<close>.
\<close>

definition flip_toggles :: "string list \<Rightarrow> config \<times> config list \<Rightarrow> config \<times> config list" where
  "flip_toggles flips st = fold (\<lambda>field (cfg, d). flip_toggle field cfg d) flips st"

text \<open>The toggles are the three default ones, each 0 or 1.\<close>

definition toggles_ok :: "(string \<times> int) list \<Rightarrow> bool" where
  "toggles_ok ts =
     (map fst ts = map fst DEFAULT_TOGGLES \<and> (\<forall>(k, v) \<in> set ts. v = 0 \<or> v = 1))"

subsection \<open>Sample values\<close>

text \<open>The values of \<open>curses.color_pair\<close> and \<open>curses.A_BOLD\<close> in ncurses.\<close>

definition ncurses_color_pair :: "int \<Rightarrow> int" where
  "ncurses_color_pair n = n * 256"

definition ncurses_A_BOLD :: int where
  "ncurses_A_BOLD = 2097152"

definition sample_config :: config where
  "sample_config =
     \<lparr>base_url = ''http://127.0.0.1:8317'', api_key = ''secret'',
      models = [(''opus'', \<lparr>owned_by = Some ''acme'', ident = Some ''x1''\<rparr>),
                (''sonnet'', \<lparr>owned_by = Some ''acme'', ident = Some ''s1''\<rparr>),
                (''haiku'', \<lparr>owned_by = Some ''acme'', ident = Some ''h1''\<rparr>)],
      toggles = DEFAULT_TOGGLES\<rparr>"

definition sample_app :: app where
  "sample_app =
     \<lparr>config = sample_config, disk = [], models_data = None,
      models_by_owner = [(''openai'', [''gpt'']), (''anthropic'', [''claude''])],
      status_message = [], active_screen = ''main'', main_focus_row = 0,
      main_focus_field = 0, should_exit = False, frame = 0, use_color = False,
      color_pairs = [], logo_lines = [''#'']\<rparr>"

text \<open>
  The first slot bound to \<open>anthropic\<close>, which the owner index of \<^const>\<open>sample_app\<close>
  lists.
\<close>

definition anthropic_app :: app where
  "anthropic_app =
     sample_app\<lparr>config := set_entry sample_config ''opus''
                                \<lparr>owned_by = Some ''anthropic'', ident = Some ''claude''\<rparr>\<rparr>"

text \<open>A slot with an owner and no id, the other two resolved.\<close>

definition owner_only_config :: config where
  "owner_only_config = set_entry sample_config ''opus'' \<lparr>owned_by = Some ''acme'', ident = None\<rparr>"

text \<open>A configuration file whose first slot has the empty string as its id.\<close>

definition empty_id_file :: json where
  "empty_id_file =
     JDict [(''models'',
             JDict [(''opus'', JDict [(''owned_by'', JStr ''acme''), (''id'', JStr [])]),
                    (''sonnet'', JDict [(''owned_by'', JStr ''acme''), (''id'', JStr ''s1'')])]),
            (''toggles'', JDict [(''DISABLE_COST_WARNINGS'', JBool True)])]"

definition no_environ :: "string \<rightharpoonup> string" where
  "no_environ = Map.empty"

definition inherited_environ :: "string \<rightharpoonup> string" where
  "inherited_environ = [''ANTHROPIC_DEFAULT_OPUS_MODEL'' \<mapsto> ''m'']"

text \<open>
  A server that lists one model, \<open>x2\<close> of \<open>acme\<close>, with \<open>json.loads\<close> on the body it
  sends (written here without its quotation marks); a server that answers 500; and a
  server that answers 200 with the JSON text \<open>[]\<close>, an empty array.
\<close>

definition catalog_body :: string where
  "catalog_body = ''{data: [{id: x2, owned_by: acme}]}''"

definition catalog_reply :: "string \<Rightarrow> string \<Rightarrow> http_outcome" where
  "catalog_reply url authorization = Response 200 catalog_body"

definition catalog_loads :: "string \<Rightarrow> loads_outcome" where
  "catalog_loads body =
     (if body = catalog_body
      then Loaded (JDict [(''data'',
                     JList [JDict [(''id'', JStr ''x2''), (''owned_by'', JStr ''acme'')]])])
      else Loads_ValueError)"

definition error_reply :: "string \<Rightarrow> string \<Rightarrow> http_outcome" where
  "error_reply url authorization = HTTPError 500 (Some ''server error'')"

definition array_reply :: "string \<Rightarrow> string \<Rightarrow> http_outcome" where
  "array_reply url authorization = Response 200 ''[]''"

definition array_loads :: "string \<Rightarrow> loads_outcome" where
  "array_loads body = (if body = ''[]'' then Loaded (JList []) else Loads_ValueError)"

text \<open>A base URL without a scheme, for which \<open>urllib.request.Request\<close> raises.\<close>

definition no_scheme_reply :: "string \<Rightarrow> string \<Rightarrow> http_outcome" where
  "no_scheme_reply url authorization =
     (if url = ''foo/v1/models'' then Request_ValueError else Response 200 ''[]'')"

text \<open>
  A 24 by 80 window that records the calls of \<open>addstr\<close>, none of which raises; and the
  same window with the two checks that \<open>window.addstr\<close> of CPython makes on its arguments
  before it writes.
\<close>

definition log_getmaxyx :: "(int \<times> int \<times> string \<times> int) list \<Rightarrow> int \<times> int" where
  "log_getmaxyx w = (24, 80)"

definition log_addstr ::
  "(int \<times> int \<times> string \<times> int) list \<Rightarrow> int \<Rightarrow> int \<Rightarrow> string \<Rightarrow> int \<Rightarrow>
   (int \<times> int \<times> string \<times> int) list addstr_outcome" where
  "log_addstr w y x t a = Written (w @ [(y, x, t, a)])"

definition checked_addstr ::
  "(int \<times> int \<times> string \<times> int) list \<Rightarrow> int \<Rightarrow> int \<Rightarrow> string \<Rightarrow> int \<Rightarrow>
   (int \<times> int \<times> string \<times> int) list addstr_outcome" where
  "checked_addstr w y x t a =
     (if a < - (2 ^ 63) \<or> 2 ^ 63 \<le> a then Addstr_raises OverflowError
      else if CHR 0x00 \<in> set t then Addstr_raises ValueError
      else Written (w @ [(y, x, t, a)]))"

text \<open>A status message with a null character in it, as a server's error body can have.\<close>

definition null_message :: string where
  "null_message = ''HTTP 500: a'' @ [CHR 0x00] @ ''b''"



section \<open>The owner index\<close>

lemma keys_setdefault_append:
  "map fst (setdefault_append by_owner owner model_id) =
     (if owner \<in> fst ` set by_owner then map fst by_owner else map fst by_owner @ [owner])"
  by (induction by_owner owner model_id rule: setdefault_append.induct) auto

lemma distinct_setdefault_append:
  "distinct (map fst by_owner) \<Longrightarrow>
   distinct (map fst (setdefault_append by_owner owner model_id))"
  by (simp add: keys_setdefault_append)

lemma model_options_Nil: "model_options [] k = []"
  by (simp add: model_options_def)

lemma model_options_setdefault_append:
  "model_options (setdefault_append by_owner owner model_id) k =
     (if k = owner then model_options by_owner owner @ [model_id]
      else model_options by_owner k)"
  by (induction by_owner owner model_id rule: setdefault_append.induct)
     (auto simp: model_options_def)

lemma nonempty_setdefault_append:
  "\<forall>(k, ids) \<in> set by_owner. ids \<noteq> [] \<Longrightarrow>
   \<forall>(k, ids) \<in> set (setdefault_append by_owner owner model_id). ids \<noteq> []"
  by (induction by_owner owner model_id rule: setdefault_append.induct) auto

lemma distinct_collect_by_owner:
  "distinct (map fst by_owner) \<Longrightarrow> distinct (map fst (collect_by_owner by_owner ms))"
  by (induction ms arbitrary: by_owner)
     (auto simp: distinct_setdefault_append split: option.splits)

lemma nonempty_collect_by_owner:
  "\<forall>(k, ids) \<in> set by_owner. ids \<noteq> [] \<Longrightarrow>
   \<forall>(k, ids) \<in> set (collect_by_owner by_owner ms). ids \<noteq> []"
proof (induction ms arbitrary: by_owner)
  case Nil
  then show ?case by simp
next
  case (Cons item rest)
  show ?case
  proof (cases "item ''owned_by''")
    case None
    with Cons show ?thesis by simp
  next
    case owner: (Some owner)
    show ?thesis
    proof (cases "item ''id''")
      case None
      with owner Cons show ?thesis by simp
    next
      case (Some model_id)
      from Cons.prems
      have "\<forall>(k, ids) \<in> set (setdefault_append by_owner owner model_id). ids \<noteq> []"
        by (rule nonempty_setdefault_append)
      then have "\<forall>(k, ids) \<in> set (collect_by_owner
                    (setdefault_append by_owner owner model_id) rest). ids \<noteq> []"
        by (rule Cons.IH)
      with Some owner show ?thesis by simp
    qed
  qed
qed

lemma model_options_collect_by_owner:
  "model_options (collect_by_owner by_owner ms) k = model_options by_owner k @ catalog_ids k ms"
  by (induction ms arbitrary: by_owner)
     (auto simp: model_options_setdefault_append split: option.splits)

lemma model_options_member:
  "distinct (map fst by_owner) \<Longrightarrow> (k, ids) \<in> set by_owner \<Longrightarrow> model_options by_owner k = ids"
  by (simp add: model_options_def)

lemma collected_entry:
  assumes "(owner, ids) \<in> set (collect_by_owner [] ms)"
  shows "ids = catalog_ids owner ms" and "ids \<noteq> []"
proof -
  have "distinct (map fst (collect_by_owner [] ms))"
    by (rule distinct_collect_by_owner) simp
  then have "model_options (collect_by_owner [] ms) owner = ids"
    using assms by (rule model_options_member)
  then show "ids = catalog_ids owner ms"
    by (simp add: model_options_collect_by_owner model_options_Nil)
  have "\<forall>(k, ids) \<in> set (collect_by_owner [] ms). ids \<noteq> []"
    by (rule nonempty_collect_by_owner) simp
  with assms show "ids \<noteq> []" by auto
qed

text \<open>
  C1, as the code has it. The claim fails: \<open>build_models_by_owner\<close> sorts the ids of an
  owner and never removes a repeated one, so a catalog that lists the same id twice under
  one owner gives a sequence that is neither strictly ascending nor duplicate-free.
\<close>

theorem build_models_by_owner_keeps_duplicates:
  "build_models_by_owner (Some [mk_item ''a'' ''x'', mk_item ''a'' ''x'']) = [(''x'', [''a'', ''a''])]
   \<and> \<not> sorted_wrt (<) [''a'', ''a''] \<and> \<not> distinct [''a'', ''a'']"
  by (simp add: build_models_by_owner_def mk_item_def)

text \<open>
  C1, amended: for every catalog and every owner key of the index, the id sequence is
  ascending (not strictly), is not empty, and holds exactly the ids that the catalog lists
  under that owner, each as often as it is listed; it is strictly ascending and
  duplicate-free whenever the catalog lists no id twice under that owner.
\<close>

theorem build_models_by_owner_sorted:
  "\<forall>(owner, ids) \<in> set (build_models_by_owner catalog).
     sorted ids \<and> ids \<noteq> [] \<and>
     mset ids = mset (catalog_ids owner (catalog_of catalog)) \<and>
     (distinct (catalog_ids owner (catalog_of catalog)) \<longrightarrow>
        sorted_wrt (<) ids \<and> distinct ids)"
proof clarify
  fix owner ids
  assume "(owner, ids) \<in> set (build_models_by_owner catalog)"
  then obtain ids0 where ids: "ids = sort ids0"
    and mem: "(owner, ids0) \<in> set (collect_by_owner [] (catalog_of catalog))"
    by (auto simp: build_models_by_owner_def catalog_of_def)
  from mem have eq: "ids0 = catalog_ids owner (catalog_of catalog)" and ne: "ids0 \<noteq> []"
    by (rule collected_entry)+
  have "sorted ids" using ids by simp
  moreover have "ids \<noteq> []" using ids ne by (metis length_sort length_0_conv)
  moreover have "mset ids = mset (catalog_ids owner (catalog_of catalog))"
    using ids eq by simp
  moreover have "distinct (catalog_ids owner (catalog_of catalog)) \<longrightarrow>
      sorted_wrt (<) ids \<and> distinct ids"
    using ids eq by (simp add: strict_sorted_iff)
  ultimately show "sorted ids \<and> ids \<noteq> [] \<and>
     mset ids = mset (catalog_ids owner (catalog_of catalog)) \<and>
     (distinct (catalog_ids owner (catalog_of catalog)) \<longrightarrow>
        sorted_wrt (<) ids \<and> distinct ids)"
    by blast
qed

theorem build_models_by_owner_sorted_witness:
  "(''x'', [''a'', ''b'']) \<in> set (build_models_by_owner
       (Some [mk_item ''b'' ''x'', mk_item ''a'' ''x'', mk_item ''q'' ''y'']))
   \<and> distinct (catalog_ids ''x''
       (catalog_of (Some [mk_item ''b'' ''x'', mk_item ''a'' ''x'', mk_item ''q'' ''y''])))
   \<and> sorted [''a'', ''b''] \<and> [''a'', ''b''] \<noteq> [] \<and> sorted_wrt (<) [''a'', ''b'']
   \<and> distinct [''a'', ''b'']"
  using build_models_by_owner_sorted
    [of "Some [mk_item ''b'' ''x'', mk_item ''a'' ''x'', mk_item ''q'' ''y'']"]
  by (simp add: build_models_by_owner_def mk_item_def catalog_of_def)

section \<open>Painting within the window\<close>

text \<open>
  What \<open>addstr_safe\<close> does on a window of the given height and width. It leaves the
  window as it is when the row is outside the window or the column is at or beyond the
  width. For a negative column it calls \<open>addstr\<close> at column 0 with the text without its
  first \<open>|x|\<close> characters, cut to the width; otherwise it calls \<open>addstr\<close> at the column
  with the text cut to the width that remains. A \<open>curses.error\<close> of that call is
  absorbed; any other exception of the call goes through.
\<close>

lemma addstr_safe_cases:
  assumes "getmaxyx stdscr = (height, width)"
  shows "(y < 0 \<or> height \<le> y \<longrightarrow>
          addstr_safe getmaxyx addstr stdscr y x text' attr = Inr stdscr)
    \<and> (width \<le> x \<longrightarrow> addstr_safe getmaxyx addstr stdscr y x text' attr = Inr stdscr)
    \<and> (0 \<le> y \<and> y < height \<and> x < 0 \<and> width \<le> 0 \<longrightarrow>
          addstr_safe getmaxyx addstr stdscr y x text' attr = Inr stdscr)
    \<and> (0 \<le> y \<and> y < height \<and> x < 0 \<and> 0 < width \<longrightarrow>
          addstr_safe getmaxyx addstr stdscr y x text' attr =
            (case addstr stdscr y 0 (take (nat width) (drop (nat (- x)) text')) attr of
               Written w \<Rightarrow> Inr w | Curses_error w \<Rightarrow> Inr w | Addstr_raises e \<Rightarrow> Inl e))
    \<and> (0 \<le> y \<and> y < height \<and> 0 \<le> x \<and> x < width \<longrightarrow>
          addstr_safe getmaxyx addstr stdscr y x text' attr =
            (case addstr stdscr y x (take (nat (width - x)) text') attr of
               Written w \<Rightarrow> Inr w | Curses_error w \<Rightarrow> Inr w | Addstr_raises e \<Rightarrow> Inl e))"
  using assms
  by (auto simp: addstr_safe_def slice_from_def slice_to_def split: prod.splits)

lemma addstr_safe_fails_iff:
  assumes "getmaxyx stdscr = (height, width)"
  shows "addstr_safe getmaxyx addstr stdscr y x text' attr = Inl e \<longleftrightarrow>
           0 \<le> y \<and> y < height \<and> max 0 x < width
           \<and> addstr stdscr y (max 0 x)
                (take (nat (width - max 0 x)) (drop (nat (- x)) text')) attr = Addstr_raises e"
  using assms
  by (auto simp: addstr_safe_def slice_from_def slice_to_def max_def
           split: prod.splits addstr_outcome.splits)

lemma addstr_safe_examples:
  "addstr_safe log_getmaxyx log_addstr [] 3 (- 2) ''abcdef'' 0 = Inr [(3, 0, ''cdef'', 0)]"
  "addstr_safe log_getmaxyx log_addstr [] 3 77 ''abcdef'' 0 = Inr [(3, 77, ''abc'', 0)]"
  "addstr_safe log_getmaxyx log_addstr [] 24 0 ''abcdef'' 0 = Inr []"
  "addstr_safe log_getmaxyx log_addstr [] (- 1) 0 ''abcdef'' 0 = Inr []"
  "addstr_safe log_getmaxyx log_addstr [] 0 80 ''abcdef'' 0 = Inr []"
  by (simp_all add: addstr_safe_def log_getmaxyx_def log_addstr_def slice_from_def slice_to_def)

text \<open>
  C2: the claim is that \<open>addstr_safe\<close> never fails, for every text and style. The code
  catches \<open>curses.error\<close> only. On a window whose \<open>addstr\<close> checks its arguments as
  CPython's does, a status message with a null character in it, painted at row 5 and
  column 2 with no attribute, makes \<open>addstr_safe\<close> raise \<open>ValueError\<close>, and a text
  painted with the attribute \<open>2 ^ 70\<close> makes it raise \<open>OverflowError\<close>; with a text and an
  attribute that pass the checks the same call returns.
\<close>

theorem addstr_safe_raises:
  "addstr_safe log_getmaxyx checked_addstr [] 5 2 null_message 0 = Inl ValueError
   \<and> addstr_safe log_getmaxyx checked_addstr [] 5 2 ''abc'' (2 ^ 70) = Inl OverflowError
   \<and> addstr_safe log_getmaxyx checked_addstr [] 5 2 ''abc'' 0 = Inr [(5, 2, ''abc'', 0)]"
  by (simp add: addstr_safe_def log_getmaxyx_def checked_addstr_def null_message_def
        slice_from_def slice_to_def)

section \<open>Dictionaries and slots\<close>

lemma map_of_dict_set: "map_of (dict_set m k v) = (map_of m)(k \<mapsto> v)"
  by (induction m k v rule: dict_set.induct) auto

lemma keys_dict_set: "k \<in> fst ` set m \<Longrightarrow> map fst (dict_set m k v) = map fst m"
  by (induction m k v rule: dict_set.induct) auto

lemma set_dict_set: "set (dict_set m k v) \<subseteq> insert (k, v) (set m)"
  by (induction m k v rule: dict_set.induct) auto

lemma get_entry_set_entry:
  "get_entry (set_entry cfg key entry) k = (if k = key then entry else get_entry cfg k)"
  by (simp add: get_entry_def set_entry_def map_of_dict_set)

section \<open>Refreshing the catalog\<close>

lemma valid_pairs_in_valid:
  "valid_pairs ms = Inr valid \<Longrightarrow>
   in_valid valid (owned_by entry) (ident entry) = in_catalog ms entry"
proof (induction ms arbitrary: valid)
  case Nil
  then show ?case by (auto simp: in_valid_def in_catalog_def split: option.splits)
next
  case (Cons item rest)
  then show ?case
    by (auto simp: in_valid_def in_catalog_def split: option.splits sum.splits)
qed

lemma valid_pairs_collect_models: "\<exists>valid. valid_pairs (collect_models data) = Inr valid"
proof (induction data)
  case Nil
  show ?case by simp
next
  case (Cons j rest)
  then obtain valid where "valid_pairs (collect_models rest) = Inr valid" by blast
  then show ?case
    by (cases j) (auto simp: mk_item_def split: option.splits json.splits)
qed

lemma validated_idem: "validated valid (validated valid entry) = validated valid entry"
  by (simp add: validated_def empty_slot_def truthy_def)

lemma validate_slot_entry:
  "get_entry (fst (validate_slot valid key st)) k =
     (if k = key then validated valid (get_entry (fst st) k) else get_entry (fst st) k)"
  by (cases "get_entry (fst st) key")
     (auto simp: validate_slot_def validated_def Let_def get_entry_set_entry
                 empty_slot_def truthy_def)

lemma fold_validate_slot_entry:
  "get_entry (fst (fold (validate_slot valid) keys st)) k =
     (if k \<in> set keys then validated valid (get_entry (fst st) k) else get_entry (fst st) k)"
  by (induction keys arbitrary: st) (auto simp: validate_slot_entry validated_idem)

lemma fetch_models_items:
  "fetch_models urlopen json_loads b k = Inr ms \<Longrightarrow> \<exists>valid. valid_pairs ms = Inr valid"
  by (auto simp: fetch_models_def Let_def valid_pairs_collect_models
           split: http_outcome.splits if_splits option.splits json.splits
                  loads_outcome.splits)

lemma fetch_models_message:
  "fetch_models urlopen json_loads b k = Inl (RuntimeError msg) \<Longrightarrow> msg \<noteq> []"
  by (auto simp: fetch_models_def Let_def
           split: http_outcome.splits if_splits option.splits json.splits
                  loads_outcome.splits)

text \<open>
  C3: when the credentials are not blank and \<open>fetch_models\<close> returns a catalog,
  \<open>refresh_models\<close> returns; the catalog and the owner index are replaced; every slot
  whose pair is not in the new catalog holds \<open>(None, None)\<close> afterwards, and a slot that
  held \<open>(None, None)\<close> is as it was; the configuration is written exactly once, as it
  stands after the refresh.
\<close>

theorem refresh_models_reconciles:
  assumes "strip (base_url (config self)) \<noteq> []" and "strip (api_key (config self)) \<noteq> []"
    and "fetch_models urlopen json_loads (strip (base_url (config self)))
           (strip (api_key (config self))) = Inr ms"
  shows "\<exists>self'. refresh_models urlopen json_loads self = Inr self'
      \<and> models_data self' = Some ms
      \<and> models_by_owner self' = build_models_by_owner (Some ms)
      \<and> (\<forall>key \<in> set MODEL_KEYS.
            (\<not> in_catalog ms (get_entry (config self) key) \<longrightarrow>
               get_entry (config self') key = empty_slot)
          \<and> (get_entry (config self) key = empty_slot \<longrightarrow>
               get_entry (config self') key = get_entry (config self) key))
      \<and> disk self' = disk self @ [config self']"
proof -
  from assms(3) obtain valid where valid: "valid_pairs ms = Inr valid"
    using fetch_models_items by blast
  let ?cfg = "(config self)\<lparr>base_url := strip (base_url (config self)),
                            api_key := strip (api_key (config self))\<rparr>"
  obtain cfg' changed
    where run_fold: "fold (validate_slot valid) MODEL_KEYS (?cfg, False) = (cfg', changed)"
    by (cases "fold (validate_slot valid) MODEL_KEYS (?cfg, False)")
  have entry: "get_entry cfg' key =
      (if key \<in> set MODEL_KEYS then validated valid (get_entry (config self) key)
       else get_entry (config self) key)" for key
    using fold_validate_slot_entry [of valid MODEL_KEYS "(?cfg, False)" key] run_fold
    by (simp add: get_entry_def)
  let ?self' = "self\<lparr>status_message := [], models_data := Some ms, config := cfg',
                     disk := disk self @ [cfg'],
                     models_by_owner := build_models_by_owner (Some ms),
                     status_message := ''Models refreshed.''\<rparr>"
  have run: "refresh_models urlopen json_loads self = Inr ?self'"
    using assms valid run_fold
    by (simp add: refresh_models_def fetch_and_store_models_def validate_models_def Let_def
          save_config_def update_models_by_owner_def truthy_def)
  have "\<forall>key \<in> set MODEL_KEYS.
            (\<not> in_catalog ms (get_entry (config self) key) \<longrightarrow> get_entry cfg' key = empty_slot)
          \<and> (get_entry (config self) key = empty_slot \<longrightarrow>
               get_entry cfg' key = get_entry (config self) key)"
    using valid_pairs_in_valid [OF valid]
    by (auto simp: entry validated_def)
  with run show ?thesis by simp
qed

theorem refresh_models_reconciles_witness:
  "strip (base_url (config sample_app)) \<noteq> [] \<and> strip (api_key (config sample_app)) \<noteq> []
   \<and> fetch_models catalog_reply catalog_loads (strip (base_url (config sample_app)))
        (strip (api_key (config sample_app))) = Inr [mk_item ''x2'' ''acme'']
   \<and> get_entry (config sample_app) ''opus'' = \<lparr>owned_by = Some ''acme'', ident = Some ''x1''\<rparr>
   \<and> \<not> in_catalog [mk_item ''x2'' ''acme''] (get_entry (config sample_app) ''opus'')
   \<and> (\<exists>self'. refresh_models catalog_reply catalog_loads sample_app = Inr self'
         \<and> get_entry (config self') ''opus'' = \<lparr>owned_by = None, ident = None\<rparr>
         \<and> disk self' = [config self'])"
proof -
  have creds: "strip (base_url (config sample_app)) \<noteq> []"
    "strip (api_key (config sample_app)) \<noteq> []"
    by (simp_all add: sample_app_def sample_config_def strip_def isspace_def)
  have fetched: "fetch_models catalog_reply catalog_loads (strip (base_url (config sample_app)))
        (strip (api_key (config sample_app))) = Inr [mk_item ''x2'' ''acme'']"
    by (simp add: fetch_models_def catalog_reply_def catalog_loads_def)
  have slot: "get_entry (config sample_app) ''opus'' = \<lparr>owned_by = Some ''acme'', ident = Some ''x1''\<rparr>"
    by (simp add: sample_app_def sample_config_def get_entry_def)
  have lacking: "\<not> in_catalog [mk_item ''x2'' ''acme''] (get_entry (config sample_app) ''opus'')"
    by (simp add: slot in_catalog_def mk_item_def)
  have "disk sample_app = []" by (simp add: sample_app_def)
  moreover have "''opus'' \<in> set MODEL_KEYS" by (simp add: MODEL_KEYS_def)
  ultimately have "\<exists>self'. refresh_models catalog_reply catalog_loads sample_app = Inr self'
         \<and> get_entry (config self') ''opus'' = \<lparr>owned_by = None, ident = None\<rparr>
         \<and> disk self' = [config self']"
    using refresh_models_reconciles [OF creds fetched] lacking
    by (auto simp: empty_slot_def)
  with creds fetched slot lacking show ?thesis by blast
qed

text \<open>
  The failure that \<open>refresh_models\<close> handles: when the credentials are not blank and
  \<open>fetch_models\<close> raises \<open>RuntimeError\<close>, \<open>refresh_models\<close> returns the state it was
  given with the error text as the status message; the configuration, the catalog, the
  owner index and the disk are as before.
\<close>

lemma refresh_models_runtime_error:
  assumes "strip (base_url (config self)) \<noteq> []" and "strip (api_key (config self)) \<noteq> []"
    and "fetch_models urlopen json_loads (strip (base_url (config self)))
           (strip (api_key (config self))) = Inl (RuntimeError msg)"
  shows "refresh_models urlopen json_loads self = Inr (self\<lparr>status_message := msg\<rparr>)"
  using assms fetch_models_message [OF assms(3)]
  by (simp add: refresh_models_def fetch_and_store_models_def Let_def truthy_def)

lemma refresh_models_http_500:
  "refresh_models error_reply catalog_loads sample_app =
     Inr (sample_app\<lparr>status_message := ''HTTP 500: server error''\<rparr>)"
proof -
  have creds: "strip (base_url (config sample_app)) \<noteq> []"
    "strip (api_key (config sample_app)) \<noteq> []"
    by (simp_all add: sample_app_def sample_config_def strip_def isspace_def)
  have failed: "fetch_models error_reply catalog_loads (strip (base_url (config sample_app)))
        (strip (api_key (config sample_app))) = Inl (RuntimeError ''HTTP 500: server error'')"
    by (simp add: fetch_models_def error_reply_def error_body_def strip_def isspace_def
          str_int_def str_nat.simps digit_char_def)
  from refresh_models_runtime_error [OF creds failed] show ?thesis .
qed

text \<open>
  The failures that it does not handle: whatever else \<open>fetch_models\<close> raises goes
  through \<open>fetch_and_store_models\<close> and \<open>refresh_models\<close>, and no status message is set.
\<close>

lemma refresh_models_uncaught:
  assumes "strip (base_url (config self)) \<noteq> []" and "strip (api_key (config self)) \<noteq> []"
    and "fetch_models urlopen json_loads (strip (base_url (config self)))
           (strip (api_key (config self))) = Inl e"
    and "\<forall>msg. e \<noteq> RuntimeError msg"
  shows "refresh_models urlopen json_loads self = Inl e"
  using assms
  by (cases e) (simp_all add: refresh_models_def fetch_and_store_models_def Let_def)

text \<open>
  C7: the claim is that a failed fetch leaves its error text as the status message and
  the rest of the state as it was. The code does so for \<open>RuntimeError\<close> only. When the
  server answers 200 with a JSON text that is not an object (here \<open>[]\<close>),
  \<open>payload.get\<close> raises \<open>AttributeError\<close>, and \<open>refresh_models\<close> raises it in turn:
  there is no state to show a message in. The same happens with the \<open>ValueError\<close> of
  \<open>urllib.request.Request\<close> for the base URL \<open>foo\<close>.
\<close>

theorem refresh_models_bad_payload:
  "strip (base_url (config sample_app)) \<noteq> [] \<and> strip (api_key (config sample_app)) \<noteq> []
   \<and> fetch_models array_reply array_loads (strip (base_url (config sample_app)))
        (strip (api_key (config sample_app))) = Inl AttributeError
   \<and> refresh_models array_reply array_loads sample_app = Inl AttributeError
   \<and> refresh_models no_scheme_reply array_loads
        (sample_app\<lparr>config := sample_config\<lparr>base_url := ''foo''\<rparr>\<rparr>) = Inl ValueError"
  by (simp add: refresh_models_def fetch_and_store_models_def fetch_models_def Let_def
        array_reply_def array_loads_def no_scheme_reply_def sample_app_def sample_config_def
        strip_def isspace_def rstrip_slash_def)

section \<open>Launch requirements\<close>

lemma slots_required_iff:
  "slots_required cfg keys =
     (if \<exists>key \<in> set keys. \<not> truthy (owned_by (get_entry cfg key))
                          \<or> \<not> truthy (ident (get_entry cfg key))
      then Some ''OPUS, SONNET, and HAIKU selections are required.'' else None)"
  by (induction keys) (auto simp: Let_def)

text \<open>
  C4, as the code has it. The claim fails: with credentials that are not blank, a slot
  that has an owner and no id blocks the launch, although no slot lacks both an owner and
  an id.
\<close>

theorem validate_launch_requirements_owner_only:
  "validate_launch_requirements owner_only_config =
     Some ''OPUS, SONNET, and HAIKU selections are required.''
   \<and> strip (base_url owner_only_config) \<noteq> [] \<and> strip (api_key owner_only_config) \<noteq> []
   \<and> owned_by (get_entry owner_only_config ''opus'') = Some ''acme''
   \<and> ident (get_entry owner_only_config ''opus'') = None
   \<and> \<not> (owned_by (get_entry owner_only_config ''opus'') = None
          \<and> ident (get_entry owner_only_config ''opus'') = None)
   \<and> \<not> (owned_by (get_entry owner_only_config ''sonnet'') = None
          \<and> ident (get_entry owner_only_config ''sonnet'') = None)
   \<and> \<not> (owned_by (get_entry owner_only_config ''haiku'') = None
          \<and> ident (get_entry owner_only_config ''haiku'') = None)"
  by (simp add: validate_launch_requirements_def owner_only_config_def sample_config_def
        set_entry_def strip_def isspace_def MODEL_KEYS_def get_entry_def truthy_def)

text \<open>
  C4, amended: \<open>validate_launch_requirements\<close> returns the credentials reason when
  \<open>base_url\<close> or \<open>api_key\<close> is empty after trimming, whatever the slots hold; otherwise
  it returns the selections reason when one of the three slots lacks an owner or lacks an
  id (\<open>None\<close> or the empty string); otherwise it returns \<open>None\<close>.
\<close>

theorem validate_launch_requirements_cases:
  "validate_launch_requirements cfg =
     (if strip (base_url cfg) = [] \<or> strip (api_key cfg) = []
      then Some ''Base URL and API key are required.''
      else if \<exists>key \<in> set MODEL_KEYS.
                \<not> truthy (owned_by (get_entry cfg key)) \<or> \<not> truthy (ident (get_entry cfg key))
      then Some ''OPUS, SONNET, and HAIKU selections are required.''
      else None)"
  unfolding validate_launch_requirements_def Let_def slots_required_iff by simp

theorem validate_launch_requirements_cases_witness:
  "strip (api_key (sample_config\<lparr>api_key := ''  ''\<rparr>)) = []
   \<and> validate_launch_requirements (sample_config\<lparr>api_key := ''  ''\<rparr>) =
       Some ''Base URL and API key are required.''
   \<and> validate_launch_requirements owner_only_config =
       Some ''OPUS, SONNET, and HAIKU selections are required.''
   \<and> validate_launch_requirements sample_config = None"
  using validate_launch_requirements_cases [of "sample_config\<lparr>api_key := ''  ''\<rparr>"]
    validate_launch_requirements_cases [of owner_only_config]
    validate_launch_requirements_cases [of sample_config]
  by (simp add: owner_only_config_def sample_config_def set_entry_def strip_def isspace_def
        MODEL_KEYS_def get_entry_def truthy_def)

section \<open>Cycling a selection\<close>

lemma index_of_first:
  "c \<in> set xs \<Longrightarrow>
   index_of xs c < length xs \<and> xs ! index_of xs c = c \<and> (\<forall>j < index_of xs c. xs ! j \<noteq> c)"
  by (induction xs) (auto simp: less_Suc_eq_0_disj)

text \<open>
  C5: on a list that is not empty, for direction +1 or -1, the selection step gives the
  element at \<open>(start + direction) mod len\<close>, where \<open>start\<close> is the position of the current
  value when the list has it, and otherwise \<open>len - 1\<close> going forward and \<open>0\<close> going
  backward; from a value that the list does not have, a step forward gives the first
  element and a step backward the last.
\<close>

theorem advance_cycles:
  assumes "options \<noteq> []" and "direction = 1 \<or> direction = - 1"
  shows "advance options current direction =
           Some (options ! nat ((advance_start options current direction + direction)
                                  mod int (length options)))
     \<and> nat ((advance_start options current direction + direction) mod int (length options))
         < length options
     \<and> (absent current options \<longrightarrow>
          advance options current 1 = Some (hd options) \<and>
          advance options current (- 1) = Some (last options))"
proof -
  have n: "0 < int (length options)" using assms(1) by simp
  have wrap_back: "nat ((0 - 1) mod int (length options)) = length options - 1"
    using n by (simp add: nat_diff_distrib' zmod_minus1)
  have "advance options current direction =
           Some (options ! nat ((advance_start options current direction + direction)
                                  mod int (length options)))"
    using assms n by (auto simp: advance_def advance_start_def Let_def split: option.splits)
  moreover have "nat ((advance_start options current direction + direction)
                        mod int (length options)) < length options"
    using n by (simp add: nat_less_iff)
  moreover have "absent current options \<longrightarrow>
          advance options current 1 = Some (hd options) \<and>
          advance options current (- 1) = Some (last options)"
    using assms(1) wrap_back
    by (auto simp: advance_def absent_def Let_def hd_conv_nth last_conv_nth split: option.splits)
  ultimately show ?thesis by blast
qed

theorem advance_cycles_witness:
  "owner_options (models_by_owner anthropic_app) = [''anthropic'', ''openai'']
   \<and> [''anthropic'', ''openai''] \<noteq> [] \<and> ((1::int) = 1 \<or> (1::int) = - 1)
   \<and> advance [''anthropic'', ''openai''] (Some ''anthropic'') 1 = Some ''openai''
   \<and> advance [''anthropic'', ''openai''] (Some ''openai'') 1 = Some ''anthropic''
   \<and> absent (Some ''acme'') [''anthropic'', ''openai'']
   \<and> advance [''anthropic'', ''openai''] (Some ''acme'') 1 = Some ''anthropic''
   \<and> advance [''anthropic'', ''openai''] (Some ''acme'') (- 1) = Some ''openai''
   \<and> (\<exists>once twice.
         cycle_main_option 1 anthropic_app = Inr once
         \<and> owned_by (get_entry (config once) ''opus'') = Some ''openai''
         \<and> cycle_main_option 1 once = Inr twice
         \<and> owned_by (get_entry (config twice) ''opus'') = Some ''anthropic'')"
proof -
  have owners: "owner_options (models_by_owner anthropic_app) = [''anthropic'', ''openai'']"
    by (simp add: owner_options_def anthropic_app_def sample_app_def
          less_eq_list_code less_eq_char_def)
  have steps: "advance [''anthropic'', ''openai''] (Some ''anthropic'') 1 = Some ''openai''"
    "advance [''anthropic'', ''openai''] (Some ''openai'') 1 = Some ''anthropic''"
    "absent (Some ''acme'') [''anthropic'', ''openai'']"
    "advance [''anthropic'', ''openai''] (Some ''acme'') 1 = Some ''anthropic''"
    "advance [''anthropic'', ''openai''] (Some ''acme'') (- 1) = Some ''openai''"
    using advance_cycles [of "[''anthropic'', ''openai'']" 1 "Some ''anthropic''"]
      advance_cycles [of "[''anthropic'', ''openai'']" 1 "Some ''openai''"]
      advance_cycles [of "[''anthropic'', ''openai'']" 1 "Some ''acme''"]
    by (simp_all add: advance_start_def absent_def)
  have "\<exists>once twice.
         cycle_main_option 1 anthropic_app = Inr once
         \<and> owned_by (get_entry (config once) ''opus'') = Some ''openai''
         \<and> cycle_main_option 1 once = Inr twice
         \<and> owned_by (get_entry (config twice) ''opus'') = Some ''anthropic''"
    by (simp add: anthropic_app_def sample_app_def sample_config_def getitem_def
          MODEL_KEYS_def owner_options_def update_model_owner_def cycle_main_option_def
          advance_def set_entry_def get_entry_def truthy_def save_config_def Let_def
          less_eq_list_code less_eq_char_def)
  with owners steps show ?thesis by blast
qed

text \<open>
  C6: on an empty list the selection step is the early return, and \<open>cycle_main_option\<close>
  gives back the state it was given, in either direction: for the owner field when there
  is no owner, and for the id field when the slot's owner has no ids.
\<close>

theorem cycle_main_option_empty:
  assumes "getitem MODEL_KEYS (main_focus_row self) = Inr key"
  shows "advance [] v direction = None
    \<and> (main_focus_field self = 0 \<and> owner_options (models_by_owner self) = [] \<longrightarrow>
          cycle_main_option direction self = Inr self)
    \<and> (main_focus_field self \<noteq> 0 \<and>
        (\<forall>owner. owned_by (get_entry (config self) key) = Some owner \<longrightarrow>
                 model_options (models_by_owner self) owner = []) \<longrightarrow>
          cycle_main_option direction self = Inr self)"
  using assms
  by (auto simp: cycle_main_option_def advance_def truthy_def Let_def split: option.splits)

theorem cycle_main_option_empty_witness:
  "getitem MODEL_KEYS (main_focus_row (sample_app\<lparr>models_by_owner := []\<rparr>)) = Inr ''opus''
   \<and> main_focus_field (sample_app\<lparr>models_by_owner := []\<rparr>) = 0
   \<and> owner_options (models_by_owner (sample_app\<lparr>models_by_owner := []\<rparr>)) = []
   \<and> cycle_main_option 1 (sample_app\<lparr>models_by_owner := []\<rparr>)
       = Inr (sample_app\<lparr>models_by_owner := []\<rparr>)
   \<and> cycle_main_option (- 1) (sample_app\<lparr>models_by_owner := []\<rparr>)
       = Inr (sample_app\<lparr>models_by_owner := []\<rparr>)
   \<and> main_focus_field (sample_app\<lparr>main_focus_field := 1\<rparr>) \<noteq> 0
   \<and> model_options (models_by_owner (sample_app\<lparr>main_focus_field := 1\<rparr>)) ''acme'' = []
   \<and> cycle_main_option 1 (sample_app\<lparr>main_focus_field := 1\<rparr>)
       = Inr (sample_app\<lparr>main_focus_field := 1\<rparr>)"
  using cycle_main_option_empty [of "sample_app\<lparr>models_by_owner := []\<rparr>" "''opus''" None 1]
    cycle_main_option_empty [of "sample_app\<lparr>models_by_owner := []\<rparr>" "''opus''" None "- 1"]
    cycle_main_option_empty [of "sample_app\<lparr>main_focus_field := 1\<rparr>" "''opus''" None 1]
  by (simp add: sample_app_def sample_config_def getitem_def MODEL_KEYS_def owner_options_def
        model_options_def get_entry_def)

text \<open>
  C10: \<open>update_model_owner\<close> leaves the slot without an id, whatever the owner given and
  whatever the slot held; and when the owner field has the focus and there is an owner to
  choose, \<open>cycle_main_option\<close> returns a state in which the focused slot has no id.
\<close>

theorem update_model_owner_resets_id:
  "ident (get_entry (fst (update_model_owner cfg key owner d)) key) = None
   \<and> (getitem MODEL_KEYS (main_focus_row self) = Inr key \<and> main_focus_field self = 0
        \<and> owner_options (models_by_owner self) \<noteq> [] \<longrightarrow>
      (\<exists>self'. cycle_main_option direction self = Inr self'
               \<and> ident (get_entry (config self') key) = None))"
  by (auto simp: update_model_owner_def get_entry_set_entry cycle_main_option_def advance_def
                 Let_def split: option.splits prod.splits)

theorem update_model_owner_resets_id_witness:
  "get_entry sample_config ''opus'' = \<lparr>owned_by = Some ''acme'', ident = Some ''x1''\<rparr>
   \<and> get_entry (fst (update_model_owner sample_config ''opus'' (Some ''acme'') [])) ''opus''
       = \<lparr>owned_by = Some ''acme'', ident = None\<rparr>
   \<and> getitem MODEL_KEYS (main_focus_row sample_app) = Inr ''opus''
   \<and> main_focus_field sample_app = 0
   \<and> owner_options (models_by_owner sample_app) \<noteq> []
   \<and> (\<exists>self'. cycle_main_option 1 sample_app = Inr self'
         \<and> get_entry (config self') ''opus'' = \<lparr>owned_by = Some ''anthropic'', ident = None\<rparr>)"
  using update_model_owner_resets_id
    [of sample_config "''opus''" "Some ''acme''" "[]" sample_app 1]
  by (simp add: sample_app_def sample_config_def getitem_def MODEL_KEYS_def owner_options_def
        update_model_owner_def cycle_main_option_def advance_def set_entry_def get_entry_def
        truthy_def save_config_def Let_def less_eq_list_code less_eq_char_def)

section \<open>The environment of the launched program\<close>

lemma toggles_ok_dict_set:
  assumes "toggles_ok ts" and "k \<in> fst ` set DEFAULT_TOGGLES" and "v = 0 \<or> v = 1"
  shows "toggles_ok (dict_set ts k v)"
proof -
  have "k \<in> fst ` set ts" using assms(1,2) by (metis toggles_ok_def set_map)
  then have "map fst (dict_set ts k v) = map fst DEFAULT_TOGGLES"
    using assms(1) by (simp add: keys_dict_set toggles_ok_def)
  moreover have "\<forall>(k', v') \<in> set (dict_set ts k v). v' = 0 \<or> v' = 1"
    using assms(1,3) set_dict_set [of ts k v] by (auto simp: toggles_ok_def)
  ultimately show ?thesis by (simp add: toggles_ok_def)
qed

lemma load_toggle_ok:
  "toggles_ok (toggles cfg) \<Longrightarrow> key \<in> fst ` set DEFAULT_TOGGLES \<Longrightarrow>
   toggles_ok (toggles (load_toggle ts key cfg))"
  by (auto simp: load_toggle_def toggles_ok_dict_set split: option.splits json.splits)

lemma fold_load_toggle_ok:
  "toggles_ok (toggles cfg) \<Longrightarrow> set keys \<subseteq> fst ` set DEFAULT_TOGGLES \<Longrightarrow>
   toggles_ok (toggles (fold (load_toggle ts) keys cfg))"
  by (induction keys arbitrary: cfg) (auto simp: load_toggle_ok)

lemma load_model_toggles: "toggles (load_model ms key cfg) = toggles cfg"
  by (simp add: load_model_def set_entry_def split: option.splits json.splits)

lemma fold_load_model_toggles: "toggles (fold (load_model ms) keys cfg) = toggles cfg"
  by (induction keys arbitrary: cfg) (simp_all add: load_model_toggles)

lemma toggles_ok_default: "toggles_ok DEFAULT_TOGGLES"
  by (simp add: toggles_ok_def DEFAULT_TOGGLES_def)

lemma load_config_toggles_ok: "toggles_ok (toggles (load_config raw))"
proof -
  have url: "toggles (case x of Some (JStr s) \<Rightarrow> cfg\<lparr>base_url := s\<rparr> | _ \<Rightarrow> cfg) = toggles cfg"
    for x and cfg :: config by (simp split: option.splits json.splits)
  have akey: "toggles (case x of Some (JStr s) \<Rightarrow> cfg\<lparr>api_key := s\<rparr> | _ \<Rightarrow> cfg) = toggles cfg"
    for x and cfg :: config by (simp split: option.splits json.splits)
  have ms: "toggles (case x of Some (JDict ms) \<Rightarrow> fold (load_model ms) MODEL_KEYS cfg | _ \<Rightarrow> cfg)
              = toggles cfg"
    for x cfg by (simp add: fold_load_model_toggles split: option.splits json.splits)
  have ts: "toggles_ok (toggles (case x of
                Some (JDict ts) \<Rightarrow> fold (load_toggle ts) (map fst DEFAULT_TOGGLES) cfg
              | _ \<Rightarrow> cfg))"
    if "toggles_ok (toggles cfg)" for x cfg
    using that by (simp add: fold_load_toggle_ok split: option.splits json.splits)
  have dflt: "toggles_ok (toggles default_config)"
    by (simp add: default_config_def toggles_ok_default)
  show ?thesis
  proof (cases raw)
    case None
    then show ?thesis by (simp add: load_config_def dflt)
  next
    case (Some j)
    show ?thesis
    proof (cases j)
      case (JDict data)
      have "toggles_ok (toggles (load_config (Some (JDict data))))"
        unfolding load_config_def Let_def option.case json.case
        by (intro ts) (simp only: ms akey url dflt)
      with Some JDict show ?thesis by simp
    qed (simp_all add: Some load_config_def dflt)
  qed
qed

lemma flip_toggle_ok:
  "toggles_ok (toggles cfg) \<Longrightarrow> field \<in> fst ` set DEFAULT_TOGGLES \<Longrightarrow>
   toggles_ok (toggles (fst (flip_toggle field cfg d)))"
  by (simp add: flip_toggle_def Let_def toggles_ok_dict_set)

lemma flip_toggles_ok:
  "toggles_ok (toggles (fst st)) \<Longrightarrow> set flips \<subseteq> fst ` set DEFAULT_TOGGLES \<Longrightarrow>
   toggles_ok (toggles (fst (flip_toggles flips st)))"
proof (induction flips arbitrary: st)
  case Nil
  then show ?case by (simp add: flip_toggles_def)
next
  case (Cons field rest)
  obtain cfg d where st: "st = (cfg, d)" by (cases st)
  have "toggles_ok (toggles (fst (flip_toggle field cfg d)))"
    using Cons.prems st by (simp add: flip_toggle_ok)
  then have "toggles_ok (toggles (fst (flip_toggles rest (flip_toggle field cfg d))))"
    using Cons.prems by (intro Cons.IH) auto
  then show ?case by (simp add: flip_toggles_def st)
qed

lemma fold_env_toggle_other:
  "k \<notin> fst ` set ts \<Longrightarrow> fold env_toggle ts env k = env k"
  by (induction ts arbitrary: env) (auto simp: env_toggle_def)

lemma fold_env_toggle_key:
  "k \<in> fst ` set ts \<Longrightarrow> \<forall>(k', v) \<in> set ts. v = 0 \<or> v = 1 \<Longrightarrow>
   fold env_toggle ts env k = Some ''0'' \<or> fold env_toggle ts env k = Some ''1''"
proof (induction ts arbitrary: env)
  case Nil
  then show ?case by simp
next
  case (Cons kv rest)
  show ?case
  proof (cases "k \<in> fst ` set rest")
    case True
    with Cons show ?thesis by auto
  next
    case False
    with Cons.prems have k: "fst kv = k" and v: "snd kv = 0 \<or> snd kv = 1" by auto
    have "fold env_toggle (kv # rest) env k = Some (str_int (snd kv))"
      using False k by (simp add: fold_env_toggle_other env_toggle_def)
    with v show ?thesis by (auto simp: str_int_def str_nat.simps digit_char_def)
  qed
qed

lemma model_vars:
  "model_var ''opus'' = ''ANTHROPIC_DEFAULT_OPUS_MODEL''"
  "model_var ''sonnet'' = ''ANTHROPIC_DEFAULT_SONNET_MODEL''"
  "model_var ''haiku'' = ''ANTHROPIC_DEFAULT_HAIKU_MODEL''"
  by (simp_all add: model_var_def upper_def upper_char_def)

lemma fold_env_model:
  "key \<in> set MODEL_KEYS \<Longrightarrow>
   fold (env_model cfg) MODEL_KEYS env (model_var key) =
     (if truthy (ident (get_entry cfg key)) then ident (get_entry cfg key)
      else env (model_var key))"
  by (auto simp: MODEL_KEYS_def env_model_def model_vars truthy_def split: option.splits)

lemma fold_env_model_other:
  "k \<notin> model_var ` set MODEL_KEYS \<Longrightarrow> fold (env_model cfg) MODEL_KEYS env k = env k"
  by (auto simp: MODEL_KEYS_def env_model_def split: option.splits)

text \<open>
  C8, as the code has it. The claim fails in both directions: a slot loaded with the
  empty string as its id has an id that is not null and gets no variable, and a slot
  without an id keeps the variable that the inherited environment already holds.
\<close>

theorem build_env_empty_id:
  "ident (get_entry (load_config (Some empty_id_file)) ''opus'') = Some []
   \<and> build_env no_environ (load_config (Some empty_id_file)) False
        ''ANTHROPIC_DEFAULT_OPUS_MODEL'' = None
   \<and> ident (get_entry (load_config None) ''opus'') = None
   \<and> build_env inherited_environ (load_config None) False
        ''ANTHROPIC_DEFAULT_OPUS_MODEL'' = Some ''m''"
  by (simp add: empty_id_file_def no_environ_def inherited_environ_def load_config_def
        default_config_def Let_def MODEL_KEYS_def load_model_def load_toggle_def set_entry_def
        get_entry_def json_str_def empty_slot_def build_env_def env_model_def env_toggle_def
        DEFAULT_TOGGLES_def model_vars)

text \<open>
  C8, amended: for the configuration that \<open>load_config\<close> gives, after any sequence of
  toggle flips, \<open>build_env\<close> sets the base URL and the auth token (masked when asked),
  sets one variable per toggle, each to \<open>"0"\<close> or \<open>"1"\<close>, and for each slot sets the
  model variable to the slot's id exactly when that id is a non-empty string; for a slot
  whose id is \<open>None\<close> or empty the variable is what the inherited environment holds.
\<close>

theorem build_env_projection:
  assumes "set flips \<subseteq> fst ` set DEFAULT_TOGGLES"
    and "cfg = fst (flip_toggles flips (load_config raw, d))"
    and "env = build_env environ cfg masked"
  shows "env ''ANTHROPIC_BASE_URL'' = Some (base_url cfg)
    \<and> env ''ANTHROPIC_AUTH_TOKEN'' =
        Some (if masked then mask_secret (api_key cfg) else api_key cfg)
    \<and> map fst (toggles cfg) = map fst DEFAULT_TOGGLES
    \<and> (\<forall>k \<in> fst ` set DEFAULT_TOGGLES. env k = Some ''0'' \<or> env k = Some ''1'')
    \<and> (\<forall>key \<in> set MODEL_KEYS.
          env (model_var key) =
            (if truthy (ident (get_entry cfg key)) then ident (get_entry cfg key)
             else environ (model_var key)))"
proof -
  have ok: "toggles_ok (toggles cfg)"
    unfolding assms(2) using assms(1)
    by (intro flip_toggles_ok) (simp_all add: load_config_toggles_ok)
  then have keys: "fst ` set (toggles cfg) = fst ` set DEFAULT_TOGGLES"
    by (metis toggles_ok_def set_map)
  have vals: "\<forall>(k', v) \<in> set (toggles cfg). v = 0 \<or> v = 1"
    using ok by (simp add: toggles_ok_def)
  have fixed: "''ANTHROPIC_BASE_URL'' \<notin> fst ` set (toggles cfg)"
    "''ANTHROPIC_AUTH_TOKEN'' \<notin> fst ` set (toggles cfg)"
    "\<forall>key \<in> set MODEL_KEYS. model_var key \<notin> fst ` set (toggles cfg)"
    unfolding keys by (simp_all add: DEFAULT_TOGGLES_def MODEL_KEYS_def model_vars)
  have nomodel: "''ANTHROPIC_BASE_URL'' \<notin> model_var ` set MODEL_KEYS"
    "''ANTHROPIC_AUTH_TOKEN'' \<notin> model_var ` set MODEL_KEYS"
    by (simp_all add: MODEL_KEYS_def model_vars)
  have "env ''ANTHROPIC_BASE_URL'' = Some (base_url cfg)"
    unfolding assms(3) build_env_def Let_def
    by (simp add: fold_env_toggle_other fixed fold_env_model_other nomodel)
  moreover have "env ''ANTHROPIC_AUTH_TOKEN'' =
      Some (if masked then mask_secret (api_key cfg) else api_key cfg)"
    unfolding assms(3) build_env_def Let_def
    by (simp add: fold_env_toggle_other fixed fold_env_model_other nomodel)
  moreover have "map fst (toggles cfg) = map fst DEFAULT_TOGGLES"
    using ok by (simp add: toggles_ok_def)
  moreover have "\<forall>k \<in> fst ` set DEFAULT_TOGGLES. env k = Some ''0'' \<or> env k = Some ''1''"
    unfolding assms(3) build_env_def Let_def
    using fold_env_toggle_key [OF _ vals] keys by blast
  moreover have "\<forall>key \<in> set MODEL_KEYS.
          env (model_var key) =
            (if truthy (ident (get_entry cfg key)) then ident (get_entry cfg key)
             else environ (model_var key))"
  proof
    fix key assume key: "key \<in> set MODEL_KEYS"
    then have "model_var key \<notin> fst ` set (toggles cfg)" using fixed(3) by blast
    then have "env (model_var key) =
        fold (env_model cfg) MODEL_KEYS
          (environ(''ANTHROPIC_BASE_URL'' \<mapsto> base_url cfg,
                   ''ANTHROPIC_AUTH_TOKEN'' \<mapsto>
                     (if masked then mask_secret (api_key cfg) else api_key cfg)))
          (model_var key)"
      unfolding assms(3) build_env_def Let_def by (simp add: fold_env_toggle_other)
    also have "\<dots> = (if truthy (ident (get_entry cfg key)) then ident (get_entry cfg key)
             else environ (model_var key))"
      using key nomodel by (subst fold_env_model) (auto simp: MODEL_KEYS_def model_vars)
    finally show "env (model_var key) =
            (if truthy (ident (get_entry cfg key)) then ident (get_entry cfg key)
             else environ (model_var key))" .
  qed
  ultimately show ?thesis by blast
qed

theorem build_env_projection_witness:
  "set [''DISABLE_COST_WARNINGS'', ''CLAUDE_CODE_ENABLE_TELEMETRY'']
     \<subseteq> fst ` set DEFAULT_TOGGLES
   \<and> build_env no_environ
        (fst (flip_toggles [''DISABLE_COST_WARNINGS'', ''CLAUDE_CODE_ENABLE_TELEMETRY'']
                (load_config (Some empty_id_file), []))) False ''DISABLE_COST_WARNINGS''
       = Some ''0''
   \<and> build_env no_environ
        (fst (flip_toggles [''DISABLE_COST_WARNINGS'', ''CLAUDE_CODE_ENABLE_TELEMETRY'']
                (load_config (Some empty_id_file), []))) False ''CLAUDE_CODE_ENABLE_TELEMETRY''
       = Some ''1''
   \<and> build_env no_environ
        (fst (flip_toggles [''DISABLE_COST_WARNINGS'', ''CLAUDE_CODE_ENABLE_TELEMETRY'']
                (load_config (Some empty_id_file), []))) False ''ANTHROPIC_DEFAULT_SONNET_MODEL''
       = Some ''s1''
   \<and> build_env no_environ
        (fst (flip_toggles [''DISABLE_COST_WARNINGS'', ''CLAUDE_CODE_ENABLE_TELEMETRY'']
                (load_config (Some empty_id_file), []))) False ''ANTHROPIC_BASE_URL''
       = Some ''http://127.0.0.1:8317''"
proof -
  have flips: "set [''DISABLE_COST_WARNINGS'', ''CLAUDE_CODE_ENABLE_TELEMETRY'']
     \<subseteq> fst ` set DEFAULT_TOGGLES"
    by (simp add: DEFAULT_TOGGLES_def)
  have cfg: "fst (flip_toggles [''DISABLE_COST_WARNINGS'', ''CLAUDE_CODE_ENABLE_TELEMETRY'']
                (load_config (Some empty_id_file), [])) =
      \<lparr>base_url = ''http://127.0.0.1:8317'', api_key = [],
       models = [(''opus'', \<lparr>owned_by = Some ''acme'', ident = Some []\<rparr>),
                 (''sonnet'', \<lparr>owned_by = Some ''acme'', ident = Some ''s1''\<rparr>),
                 (''haiku'', \<lparr>owned_by = None, ident = None\<rparr>)],
       toggles = [(''CLAUDE_CODE_ENABLE_TELEMETRY'', 1), (''DISABLE_COST_WARNINGS'', 0),
                  (''CLAUDE_CODE_DISABLE_NONESSENTIAL_TRAFFIC'', 1)]\<rparr>"
    by (simp add: flip_toggles_def flip_toggle_def empty_id_file_def load_config_def
          default_config_def DEFAULT_BASE_URL_def Let_def MODEL_KEYS_def load_model_def
          load_toggle_def set_entry_def json_str_def empty_slot_def DEFAULT_TOGGLES_def
          save_config_def)
  from build_env_projection
    [where raw = "Some empty_id_file" and d = "[]" and environ = no_environ and masked = False,
     OF flips refl refl]
  show ?thesis
    unfolding cfg using flips
    by (simp add: build_env_def env_model_def env_toggle_def MODEL_KEYS_def model_vars
          get_entry_def no_environ_def str_int_def str_nat.simps digit_char_def)
qed

section \<open>The pulse style\<close>

lemma in_concat_map:
  "x \<in> set xs \<Longrightarrow> c \<in> set (f x) \<Longrightarrow> c \<in> set (concat (map f xs))"
  by auto

lemma pulse_row_iff:
  "call \<in> set (pulse_row color_pair A_BOLD self start_y base_x row line) \<longleftrightarrow>
     (\<exists>col. col < length line \<and> line ! col \<noteq> CHR '' ''
        \<and> call = (start_y + int row, base_x + int col, [line ! col],
                   pulse_attr color_pair A_BOLD self row col))"
  (is "?L \<longleftrightarrow> ?R")
proof
  assume ?L
  then obtain p where p: "p \<in> set (enumerate 0 line)"
    and c: "call \<in> set (case p of (col, ch) \<Rightarrow>
               if ch = CHR '' '' then []
               else [(start_y + int row, base_x + int col, [ch],
                      pulse_attr color_pair A_BOLD self row col)])"
    unfolding pulse_row_def by auto
  obtain col ch where pc: "p = (col, ch)" by (cases p)
  with p have "col < length line" and "ch = line ! col"
    by (simp_all add: in_set_enumerate_eq)
  with c pc show ?R by (cases "ch = CHR '' ''") auto
next
  assume ?R
  then obtain col where col: "col < length line" "line ! col \<noteq> CHR '' ''"
    "call = (start_y + int row, base_x + int col, [line ! col],
             pulse_attr color_pair A_BOLD self row col)"
    by blast
  have mem: "(col, line ! col) \<in> set (enumerate 0 line)"
    using col(1) by (simp add: in_set_enumerate_eq)
  show ?L
    unfolding pulse_row_def
    by (rule in_concat_map [where x = "(col, line ! col)"]) (simp_all add: mem col(2,3))
qed

lemma pulse_calls_iff:
  "call \<in> set (pulse_calls color_pair A_BOLD self start_y base_x) \<longleftrightarrow>
     (\<exists>row col. row < length (logo_lines self) \<and> col < length (logo_lines self ! row)
        \<and> logo_lines self ! row ! col \<noteq> CHR '' ''
        \<and> call = (start_y + int row, base_x + int col, [logo_lines self ! row ! col],
                   pulse_attr color_pair A_BOLD self row col))"
  (is "?L \<longleftrightarrow> ?R")
proof
  assume ?L
  then obtain p where p: "p \<in> set (enumerate 0 (logo_lines self))"
    and c: "call \<in> set (case p of (row, line) \<Rightarrow>
               pulse_row color_pair A_BOLD self start_y base_x row line)"
    unfolding pulse_calls_def by auto
  obtain row line where pc: "p = (row, line)" by (cases p)
  with p have "row < length (logo_lines self)" and "line = logo_lines self ! row"
    by (simp_all add: in_set_enumerate_eq)
  with c pc show ?R by (auto simp: pulse_row_iff)
next
  assume ?R
  then obtain row col where rc: "row < length (logo_lines self)"
    "col < length (logo_lines self ! row)" "logo_lines self ! row ! col \<noteq> CHR '' ''"
    "call = (start_y + int row, base_x + int col, [logo_lines self ! row ! col],
             pulse_attr color_pair A_BOLD self row col)"
    by blast
  have mem: "(row, logo_lines self ! row) \<in> set (enumerate 0 (logo_lines self))"
    using rc(1) by (simp add: in_set_enumerate_eq)
  have cell: "call \<in> set (pulse_row color_pair A_BOLD self start_y base_x row
                               (logo_lines self ! row))"
    using rc(2-4) pulse_row_iff by blast
  show ?L
    unfolding pulse_calls_def
    by (rule in_concat_map [where x = "(row, logo_lines self ! row)"]) (simp_all add: mem cell)
qed

lemma render_style_pulse_paints:
  assumes "getmaxyx stdscr = (height, width)" and "logo_lines self \<noteq> []"
  shows "render_style_pulse getmaxyx addstr color_pair A_BOLD self stdscr start_y =
           paint_all getmaxyx addstr
             (pulse_calls color_pair A_BOLD self start_y
                (max 0 ((width - Max (set (map (\<lambda>line. int (length line)) (logo_lines self))))
                          div 2)))
             stdscr"
  using assms by (simp add: render_style_pulse_def Let_def)

text \<open>
  C9, as the code has it. The claim fails: without colour the glyph at row 0, column 0 of
  frame 0 is painted with attribute 0, which has no bold bit, although
  \<open>(frame + col + row) mod 20 < 10\<close>.
\<close>

theorem render_style_pulse_no_color:
  "use_color sample_app = False
   \<and> pulse_calls ncurses_color_pair ncurses_A_BOLD sample_app 1 5 = [(1, 5, ''#'', 0)]
   \<and> (frame sample_app + int 0 + int 0) mod 20 < 10
   \<and> and (0::int) ncurses_A_BOLD = 0"
  by (simp add: pulse_calls_def pulse_row_def pulse_attr_def sample_app_def)

text \<open>
  C9, amended: under the pulse style every glyph that is not a space is painted once, at
  its own row and column from the anchor (no offset), and nothing else is painted. When
  colour is in use and the palette is not empty, its colour is the palette entry at
  \<open>(col + row + frame div 3) mod palette_size\<close>, and \<open>A_BOLD\<close> is added exactly when
  \<open>(frame + col + row) mod 20 < 10\<close>; otherwise its attribute is 0, neither coloured nor
  bold.
\<close>

theorem render_style_pulse_cells:
  "(\<forall>row < length (logo_lines self). \<forall>col < length (logo_lines self ! row).
      logo_lines self ! row ! col \<noteq> CHR '' '' \<longrightarrow>
      (start_y + int row, base_x + int col, [logo_lines self ! row ! col],
       pulse_attr color_pair A_BOLD self row col)
        \<in> set (pulse_calls color_pair A_BOLD self start_y base_x))
   \<and> (\<forall>call \<in> set (pulse_calls color_pair A_BOLD self start_y base_x).
        \<exists>row col. row < length (logo_lines self) \<and> col < length (logo_lines self ! row)
          \<and> logo_lines self ! row ! col \<noteq> CHR '' ''
          \<and> call = (start_y + int row, base_x + int col, [logo_lines self ! row ! col],
                     pulse_attr color_pair A_BOLD self row col))
   \<and> (use_color self \<and> color_pairs self \<noteq> [] \<longrightarrow>
        nat ((int col + int row + frame self div 3) mod int (length (color_pairs self)))
          < length (color_pairs self)
        \<and> pulse_attr color_pair A_BOLD self row col =
           (if (frame self + int col + int row) mod 20 < 10
            then or (color_pair (color_pairs self !
                       nat ((int col + int row + frame self div 3)
                              mod int (length (color_pairs self)))))
                    A_BOLD
            else color_pair (color_pairs self !
                       nat ((int col + int row + frame self div 3)
                              mod int (length (color_pairs self))))))
   \<and> (\<not> (use_color self \<and> color_pairs self \<noteq> []) \<longrightarrow>
        pulse_attr color_pair A_BOLD self row col = 0)"
proof -
  have "use_color self \<and> color_pairs self \<noteq> [] \<longrightarrow>
        nat ((int col + int row + frame self div 3) mod int (length (color_pairs self)))
          < length (color_pairs self)"
    by (simp add: nat_less_iff)
  moreover have "use_color self \<and> color_pairs self \<noteq> [] \<longrightarrow>
        pulse_attr color_pair A_BOLD self row col =
           (if (frame self + int col + int row) mod 20 < 10
            then or (color_pair (color_pairs self !
                       nat ((int col + int row + frame self div 3)
                              mod int (length (color_pairs self)))))
                    A_BOLD
            else color_pair (color_pairs self !
                       nat ((int col + int row + frame self div 3)
                              mod int (length (color_pairs self)))))"
    by (simp add: pulse_attr_def Let_def)
  moreover have "\<not> (use_color self \<and> color_pairs self \<noteq> []) \<longrightarrow>
        pulse_attr color_pair A_BOLD self row col = 0"
    by (simp add: pulse_attr_def)
  ultimately show ?thesis
    using pulse_calls_iff [of _ color_pair A_BOLD self start_y base_x] by blast
qed

theorem render_style_pulse_cells_witness:
  "use_color (sample_app\<lparr>logo_lines := [''# '', '' #''], use_color := True,
                         color_pairs := [1, 2, 3], frame := 7\<rparr>)
   \<and> pulse_calls ncurses_color_pair ncurses_A_BOLD
       (sample_app\<lparr>logo_lines := [''# '', '' #''], use_color := True,
                    color_pairs := [1, 2, 3], frame := 7\<rparr>) 1 5
       = [(1, 5, ''#'', 2097152 + 768), (2, 6, ''#'', 2097152 + 512)]
   \<and> pulse_calls ncurses_color_pair ncurses_A_BOLD
       (sample_app\<lparr>logo_lines := [''# '', '' #''], use_color := True,
                    color_pairs := [1, 2, 3], frame := 10\<rparr>) 1 5
       = [(1, 5, ''#'', 256), (2, 6, ''#'', 768)]"
  using render_style_pulse_cells
      [of "sample_app\<lparr>logo_lines := [''# '', '' #''], use_color := True,
                       color_pairs := [1, 2, 3], frame := 7\<rparr>"
          1 5 ncurses_color_pair ncurses_A_BOLD 0 0]
    render_style_pulse_cells
      [of "sample_app\<lparr>logo_lines := [''# '', '' #''], use_color := True,
                       color_pairs := [1, 2, 3], frame := 10\<rparr>"
          1 5 ncurses_color_pair ncurses_A_BOLD 0 0]
  by (simp add: pulse_calls_def pulse_row_def pulse_attr_def sample_app_def
        ncurses_color_pair_def ncurses_A_BOLD_def)

end
